theory Spec2Isabelle
  imports Main "HOL-Library.Word" "HOL-Library.Sublist"
begin

unbundle bit_operations_syntax

section \<open>Values shared by all front-ends\<close>

text \<open>
  A Go \<^verbatim>\<open>string\<close> is a sequence of bytes, here a \<^typ>\<open>string\<close> (a list of 8-bit
  characters). A \<^verbatim>\<open>[]byte\<close> is a list of 8-bit words. A Go \<^verbatim>\<open>error\<close> value is
  represented by its message.
\<close>

type_synonym byte = "8 word"
type_synonym bytes = "byte list"

datatype error = Err string

definition bytesOf :: "string \<Rightarrow> bytes" where
  "bytesOf s = map of_char s"

definition ErrClosedPipe :: error where
  "ErrClosedPipe = Err ''io: read/write on closed pipe''"

definition ErrEOF :: error where
  "ErrEOF = Err ''EOF''"

definition ErrUnexpectedEOF :: error where
  "ErrUnexpectedEOF = Err ''unexpected EOF''"

subsection \<open>\<^verbatim>\<open>strings.ToLower\<close> and \<^verbatim>\<open>strings.Contains\<close>\<close>

text \<open>
  \<^verbatim>\<open>strings.ToLower\<close> maps \<^verbatim>\<open>'A'..'Z'\<close> to \<^verbatim>\<open>'a'..'z'\<close> byte by byte when the string
  is pure ASCII; on any other string it applies the Unicode lower-case mapping, which
  is not part of this program and is taken as the parameter \<open>u\<close>.
\<close>

definition isUpperASCII :: "char \<Rightarrow> bool" where
  "isUpperASCII c = (65 \<le> (of_char c :: nat) \<and> (of_char c :: nat) \<le> 90)"

definition lowerASCII :: "char \<Rightarrow> char" where
  "lowerASCII c = (if isUpperASCII c then char_of ((of_char c :: nat) + 32) else c)"

definition isASCII :: "string \<Rightarrow> bool" where
  "isASCII s = list_all (\<lambda>c. (of_char c :: nat) < 128) s"

definition ToLower :: "(string \<Rightarrow> string) \<Rightarrow> string \<Rightarrow> string" where
  "ToLower u s = (if isASCII s then map lowerASCII s else u s)"

text \<open>\<^verbatim>\<open>strings.Contains(s, substr)\<close>: \<open>substr\<close> occurs in \<open>s\<close> at some offset.\<close>

fun Contains :: "string \<Rightarrow> string \<Rightarrow> bool" where
  "Contains [] substr = (substr = [])"
| "Contains (c # s) substr = (prefix substr (c # s) \<or> Contains s substr)"

section \<open>Configuration\<close>

text \<open>
  \<^verbatim>\<open>Config.Domains\<close> is a Go map. A \<^verbatim>\<open>range\<close> loop visits its entries in an order the
  language leaves open, so the map is given as the list of its entries in the order
  the loop at hand visits them; every statement below holds for every such list.
\<close>

record Config =
  Host :: string
  Domains :: "(string \<times> string) list"

fun findValueByKeyContains ::
  "(string \<Rightarrow> string) \<Rightarrow> (string \<times> string) list \<Rightarrow> string \<Rightarrow> string \<times> bool" where
  "findValueByKeyContains u [] substr = ('''', False)"
| "findValueByKeyContains u ((key, val) # m) substr =
     (if Contains (ToLower u substr) (ToLower u key) then (val, True)
      else findValueByKeyContains u m substr)"

section \<open>The DNS query resolver\<close>

text \<open>
  The message type of the DNS library: \<^verbatim>\<open>dns.Msg\<close> embeds \<^verbatim>\<open>dns.MsgHdr\<close> and holds
  the four sections. Resource records are values of the library, of type \<open>'rr\<close>.
\<close>

record MsgHdr =
  Id_hdr :: "16 word"
  Response :: bool
  Opcode :: int
  Authoritative :: bool
  Truncated :: bool
  RecursionDesired :: bool
  RecursionAvailable :: bool
  Zero :: bool
  AuthenticatedData :: bool
  CheckingDisabled :: bool
  Rcode :: int

record Question =
  Name :: string
  Qtype :: "16 word"
  Qclass :: "16 word"

record 'rr Msg = MsgHdr +
  Compress :: bool
  Question :: "Question list"
  Answer :: "'rr list"
  Ns :: "'rr list"
  Extra :: "'rr list"

text \<open>
  The first four bytes of a DNS message on the wire (RFC 1035, section 4.1.1), big-endian:
  the ID, then the flags word with QR in bit 15, the opcode in bits 11 to 14, then AA,
  TC, RD, RA, Z, AD, CD, and the response code in the low four bits. This is the
  layout the library's \<^verbatim>\<open>Pack\<close> writes \<^verbatim>\<open>MsgHdr\<close> in and \<^verbatim>\<open>Unpack\<close> reads it from.
\<close>

definition be16 :: "byte \<Rightarrow> byte \<Rightarrow> 16 word" where
  "be16 hi lo = push_bit 8 (ucast hi) OR ucast lo"

definition put16 :: "16 word \<Rightarrow> bytes" where
  "put16 v = [ucast (drop_bit 8 v), ucast v]"

definition hdrBits :: "'a MsgHdr_scheme \<Rightarrow> 16 word" where
  "hdrBits h =
     (push_bit 11 (word_of_int (Opcode h)) OR (word_of_int (Rcode h) AND 15)
      OR (if Response h then push_bit 15 1 else 0)
      OR (if Authoritative h then push_bit 10 1 else 0)
      OR (if Truncated h then push_bit 9 1 else 0)
      OR (if RecursionDesired h then push_bit 8 1 else 0)
      OR (if RecursionAvailable h then push_bit 7 1 else 0)
      OR (if Zero h then push_bit 6 1 else 0)
      OR (if AuthenticatedData h then push_bit 5 1 else 0)
      OR (if CheckingDisabled h then push_bit 4 1 else 0))"

definition headerBytes :: "'a MsgHdr_scheme \<Rightarrow> bytes" where
  "headerBytes h = put16 (Id_hdr h) @ put16 (hdrBits h)"

text \<open>
  What the resolver calls outside this program: the DNS library (\<^verbatim>\<open>Unpack\<close>,
  \<^verbatim>\<open>NewRR\<close>, \<^verbatim>\<open>Pack\<close>), the Unicode case mapping, and the upstream resolver behind
  \<^verbatim>\<open>http.Post\<close>. \<open>Post url contentType body\<close> is either a transport error or the
  outcome of reading the response body to its end (\<^verbatim>\<open>io.ReadAll\<close>): an error or
  the bytes. (Go returns the bytes read so far along with a read error; every caller
  tests the error first and drops them.)
\<close>

record 'rr resolverEnv =
  unicodeLower :: "string \<Rightarrow> string"
  Unpack :: "bytes \<Rightarrow> error + 'rr Msg"
  NewRR :: "string \<Rightarrow> error + 'rr"
  Pack :: "'rr Msg \<Rightarrow> error + bytes"
  Post :: "string \<Rightarrow> string \<Rightarrow> bytes \<Rightarrow> error + (error + bytes)"

text \<open>An upstream call as it leaves the node: URL, content type, body.\<close>

type_synonym request = "string \<times> string \<times> bytes"

text \<open>
  \<open>processDNSQuery\<close> returns the Go result (an error or the response bytes) together
  with the list of upstream calls it made, in order.
\<close>

definition processDNSQuery ::
  "'rr resolverEnv \<Rightarrow> Config \<Rightarrow> bytes \<Rightarrow> (error + bytes) \<times> request list" where
  "processDNSQuery E config query =
     (case Unpack E query of
        Inl err \<Rightarrow> (Inl err, [])
      | Inr msg \<Rightarrow>
          if length (Question msg) = 0
          then (Inl (Err ''no DNS question found in the request''), [])
          else
            let domain = Name (Question msg ! 0);
                (ip, ok) = findValueByKeyContains (unicodeLower E) (Domains config) domain
            in if ok
               then (case NewRR E (domain @ '' A '' @ ip) of
                       Inl err \<Rightarrow> (Inl err, [])
                     | Inr rr \<Rightarrow> (Pack E (msg\<lparr>Answer := Answer msg @ [rr]\<rparr>), []))
               else (case Post E ''https://1.1.1.1/dns-query'' ''application/dns-message'' query of
                       Inl err \<Rightarrow> (Inl err, [(''https://1.1.1.1/dns-query'', ''application/dns-message'', query)])
                     | Inr body \<Rightarrow> (body, [(''https://1.1.1.1/dns-query'', ''application/dns-message'', query)])))"

section \<open>A stand-in for the DNS library\<close>

text \<open>
  The theorems below hold for every behaviour of the DNS library and of the upstream
  resolver. To evaluate the resolver on concrete queries, this section gives one such
  behaviour: a codec for the plain part of the DNS wire format (the 12-byte header and
  uncompressed questions on input; header, questions and A records on output), and a
  reader for the text \<^verbatim>\<open><name> A <address>\<close> that, like the library, accepts only a
  dotted-quad IPv4 address for an A record. It stands in for the library only in the
  closed examples.
\<close>

datatype arec = ARecord string "32 word" bytes

definition put32 :: "32 word \<Rightarrow> bytes" where
  "put32 v = [ucast (drop_bit 24 v), ucast (drop_bit 16 v), ucast (drop_bit 8 v), ucast v]"

fun unpackName :: "nat \<Rightarrow> bytes \<Rightarrow> (string \<times> bytes) option" where
  "unpackName 0 bs = None"
| "unpackName (Suc f) [] = None"
| "unpackName (Suc f) (n # rest) =
     (if n = 0 then Some ([], rest)
      else if 63 < unat n \<or> length rest < unat n then None
      else (case unpackName f (drop (unat n) rest) of
              None \<Rightarrow> None
            | Some (s, r) \<Rightarrow>
                Some (map (\<lambda>b. char_of (unat b)) (take (unat n) rest) @ ''.'' @ s, r)))"

definition unpackQuestion :: "bytes \<Rightarrow> (Question \<times> bytes) option" where
  "unpackQuestion bs =
     (case unpackName (length bs) bs of
        None \<Rightarrow> None
      | Some (s, r) \<Rightarrow>
          (case r of
             t1 # t2 # c1 # c2 # r' \<Rightarrow>
               Some (\<lparr>Name = (if s = [] then ''.'' else s),
                      Qtype = be16 t1 t2, Qclass = be16 c1 c2\<rparr>, r')
           | _ \<Rightarrow> None))"

fun unpackQuestions :: "nat \<Rightarrow> bytes \<Rightarrow> Question list option" where
  "unpackQuestions 0 bs = Some []"
| "unpackQuestions (Suc n) bs =
     (case unpackQuestion bs of
        None \<Rightarrow> None
      | Some (q, r) \<Rightarrow> map_option (\<lambda>qs. q # qs) (unpackQuestions n r))"

definition plainUnpack :: "bytes \<Rightarrow> error + arec Msg" where
  "plainUnpack bs =
     (case bs of
        i1 # i2 # f1 # f2 # q1 # q2 # a1 # a2 # n1 # n2 # x1 # x2 # rest \<Rightarrow>
          (let bits = be16 f1 f2 in
           if be16 a1 a2 \<noteq> 0 \<or> be16 n1 n2 \<noteq> 0 \<or> be16 x1 x2 \<noteq> 0
           then Inl (Err ''stand-in: only questions are unpacked'')
           else (case unpackQuestions (unat (be16 q1 q2)) rest of
                   None \<Rightarrow> Inl (Err ''dns: buffer size too small'')
                 | Some qs \<Rightarrow>
                     Inr \<lparr>Id_hdr = be16 i1 i2, Response = bit bits 15,
                          Opcode = uint (drop_bit 11 bits AND 15),
                          Authoritative = bit bits 10, Truncated = bit bits 9,
                          RecursionDesired = bit bits 8, RecursionAvailable = bit bits 7,
                          Zero = bit bits 6, AuthenticatedData = bit bits 5,
                          CheckingDisabled = bit bits 4, Rcode = uint (bits AND 15),
                          Compress = False, Question = qs, Answer = [], Ns = [], Extra = []\<rparr>))
      | _ \<Rightarrow> Inl (Err ''dns: overflow unpacking uint16''))"

fun packLabels :: "string \<Rightarrow> string \<Rightarrow> bytes option" where
  "packLabels acc [] = (if acc = [] then Some [0] else None)"
| "packLabels acc (c # cs) =
     (if c = CHR ''.''
      then (if acc = [] \<or> 63 < length acc then None
            else map_option (\<lambda>r. of_nat (length acc) # bytesOf acc @ r) (packLabels [] cs))
      else packLabels (acc @ [c]) cs)"

definition packName :: "string \<Rightarrow> bytes option" where
  "packName s = (if s = ''.'' then Some [0] else if s = [] then None else packLabels [] s)"

definition packQuestion :: "Question \<Rightarrow> bytes option" where
  "packQuestion q =
     map_option (\<lambda>n. n @ put16 (Qtype q) @ put16 (Qclass q)) (packName (Name q))"

fun packA :: "arec \<Rightarrow> bytes option" where
  "packA (ARecord name ttl ip) =
     map_option (\<lambda>n. n @ put16 1 @ put16 1 @ put32 ttl @ put16 (of_nat (length ip)) @ ip)
       (packName name)"

fun packAll :: "('a \<Rightarrow> bytes option) \<Rightarrow> 'a list \<Rightarrow> bytes option" where
  "packAll f [] = Some []"
| "packAll f (x # xs) =
     (case f x of None \<Rightarrow> None | Some b \<Rightarrow> map_option (\<lambda>r. b @ r) (packAll f xs))"

definition plainPack :: "arec Msg \<Rightarrow> error + bytes" where
  "plainPack m =
     (if Ns m \<noteq> [] \<or> Extra m \<noteq> []
      then Inl (Err ''stand-in: only questions and answers are packed'')
      else (case (packAll packQuestion (Question m), packAll packA (Answer m)) of
              (Some qs, Some ans) \<Rightarrow>
                Inr (headerBytes m
                     @ put16 (of_nat (length (Question m)))
                     @ put16 (of_nat (length (Answer m))) @ put16 0 @ put16 0 @ qs @ ans)
            | _ \<Rightarrow> Inl (Err ''dns: bad rdata'')))"

fun splitOn :: "char \<Rightarrow> string \<Rightarrow> string \<Rightarrow> string list" where
  "splitOn sep acc [] = [acc]"
| "splitOn sep acc (c # cs) =
     (if c = sep then acc # splitOn sep [] cs else splitOn sep (acc @ [c]) cs)"

definition isDigit :: "char \<Rightarrow> bool" where
  "isDigit c = (48 \<le> (of_char c :: nat) \<and> (of_char c :: nat) \<le> 57)"

definition parseOctet :: "string \<Rightarrow> byte option" where
  "parseOctet s =
     (if s = [] \<or> 3 < length s \<or> \<not> list_all isDigit s then None
      else let n = foldl (\<lambda>a c. 10 * a + ((of_char c :: nat) - 48)) 0 s
           in if 255 < n then None else Some (of_nat n))"

definition parseIPv4 :: "string \<Rightarrow> bytes option" where
  "parseIPv4 s =
     (case map parseOctet (splitOn (CHR ''.'') [] s) of
        [Some a, Some b, Some c, Some d] \<Rightarrow> Some [a, b, c, d]
      | _ \<Rightarrow> None)"

definition plainNewRR :: "string \<Rightarrow> error + arec" where
  "plainNewRR s =
     (case splitOn (CHR '' '') [] s of
        [name, ty, ip] \<Rightarrow>
          (if ty = ''A'' then
             (case parseIPv4 ip of
                None \<Rightarrow> Inl (Err ''dns: bad A A'')
              | Some a \<Rightarrow> Inr (ARecord name 3600 a))
           else Inl (Err ''stand-in: only A records are read''))
      | _ \<Rightarrow> Inl (Err ''stand-in: only A records are read''))"

text \<open>The environment with this codec and an upstream that answers every call with \<open>up\<close>.\<close>

definition plainEnv :: "(error + (error + bytes)) \<Rightarrow> arec resolverEnv" where
  "plainEnv up =
     \<lparr>unicodeLower = (\<lambda>s. s), Unpack = plainUnpack, NewRR = plainNewRR, Pack = plainPack,
      Post = (\<lambda>url ct body. up)\<rparr>"

definition upstreamDown :: "arec resolverEnv" where
  "upstreamDown = plainEnv (Inl (Err ''dial tcp 1.1.1.1:443: connect: network is unreachable''))"

text \<open>An upstream that answers with the four bytes \<^verbatim>\<open>de ad be ef\<close>, not a DNS message.\<close>

definition upstreamJunk :: "arec resolverEnv" where
  "upstreamJunk = plainEnv (Inr (Inr [0xDE, 0xAD, 0xBE, 0xEF]))"

text \<open>The example of the specification (one override, the node's own host), the same
  with an IPv6 address, a table that also has the empty key, and a table with only the
  empty key and an IPv6 address.\<close>

definition exampleConfig :: Config where
  "exampleConfig =
     \<lparr>Host = ''node.example.org'', Domains = [(''example.com'', ''10.0.0.5'')]\<rparr>"

definition ipv6Config :: Config where
  "ipv6Config =
     \<lparr>Host = ''node.example.org'', Domains = [(''example.com'', ''2001:db8::5'')]\<rparr>"

definition emptyKeyConfig :: Config where
  "emptyKeyConfig =
     \<lparr>Host = ''node.example.org'',
      Domains = [(''example.com'', ''10.0.0.5''), ([], ''10.0.0.9'')]\<rparr>"

definition emptyKeyIPv6Config :: Config where
  "emptyKeyIPv6Config = \<lparr>Host = ''node.example.org'', Domains = [([], ''2001:db8::9'')]\<rparr>"

text \<open>A query for \<^verbatim>\<open>foo.example.com\<close> (type A, class IN, recursion desired), the
  answer the node gives to it, and a query for \<^verbatim>\<open>other.org\<close>, with the messages the
  queries unpack to.\<close>

definition fooQuery :: bytes where
  "fooQuery = [0xAB, 0xCD, 0x01, 0x00, 0, 1, 0, 0, 0, 0, 0, 0] @
     [3] @ bytesOf ''foo'' @ [7] @ bytesOf ''example'' @ [3] @ bytesOf ''com'' @ [0, 0, 1, 0, 1]"

definition fooMsg :: "arec Msg" where
  "fooMsg =
     \<lparr>Id_hdr = 0xABCD, Response = False, Opcode = 0, Authoritative = False,
      Truncated = False, RecursionDesired = True, RecursionAvailable = False,
      Zero = False, AuthenticatedData = False, CheckingDisabled = False, Rcode = 0,
      Compress = False,
      Question = [\<lparr>Name = ''foo.example.com.'', Qtype = 1, Qclass = 1\<rparr>],
      Answer = [], Ns = [], Extra = []\<rparr>"

definition fooAnswer :: bytes where
  "fooAnswer = [0xAB, 0xCD, 0x01, 0x00, 0, 1, 0, 1, 0, 0, 0, 0] @
     [3] @ bytesOf ''foo'' @ [7] @ bytesOf ''example'' @ [3] @ bytesOf ''com'' @ [0, 0, 1, 0, 1] @
     [3] @ bytesOf ''foo'' @ [7] @ bytesOf ''example'' @ [3] @ bytesOf ''com'' @ [0, 0, 1, 0, 1,
      0, 0, 14, 16, 0, 4, 10, 0, 0, 5]"

definition otherQuery :: bytes where
  "otherQuery = [0x12, 0x34, 0x01, 0x00, 0, 1, 0, 0, 0, 0, 0, 0] @
     [5] @ bytesOf ''other'' @ [3] @ bytesOf ''org'' @ [0, 0, 1, 0, 1]"

definition otherMsg :: "arec Msg" where
  "otherMsg =
     \<lparr>Id_hdr = 0x1234, Response = False, Opcode = 0, Authoritative = False,
      Truncated = False, RecursionDesired = True, RecursionAvailable = False,
      Zero = False, AuthenticatedData = False, CheckingDisabled = False, Rcode = 0,
      Compress = False,
      Question = [\<lparr>Name = ''other.org.'', Qtype = 1, Qclass = 1\<rparr>],
      Answer = [], Ns = [], Extra = []\<rparr>"

section \<open>The DoH front-end\<close>

text \<open>
  The \<^verbatim>\<open>http.ResponseWriter\<close> as the client sees it: the header map, the status code
  once the header has been written, and the body bytes. \<^verbatim>\<open>Write\<close> writes status 200
  first when no status has been written; \<^verbatim>\<open>http.Error\<close> sets the plain-text
  headers, writes the status, and prints the message and a newline as the body.
\<close>

record ResponseWriter =
  rwHeader :: "string \<rightharpoonup> string"
  rwStatus :: "nat option"
  rwBody :: bytes

definition newResponse :: ResponseWriter where
  "newResponse = \<lparr>rwHeader = Map.empty, rwStatus = None, rwBody = []\<rparr>"

definition WriteHeader :: "ResponseWriter \<Rightarrow> nat \<Rightarrow> ResponseWriter" where
  "WriteHeader w code = (if rwStatus w = None then w\<lparr>rwStatus := Some code\<rparr> else w)"

definition rw_Write :: "ResponseWriter \<Rightarrow> bytes \<Rightarrow> ResponseWriter" where
  "rw_Write w p = (let w' = WriteHeader w 200 in w'\<lparr>rwBody := rwBody w' @ p\<rparr>)"

definition header_Set :: "ResponseWriter \<Rightarrow> string \<Rightarrow> string \<Rightarrow> ResponseWriter" where
  "header_Set w k v = w\<lparr>rwHeader := (rwHeader w)(k \<mapsto> v)\<rparr>"

definition header_Del :: "ResponseWriter \<Rightarrow> string \<Rightarrow> ResponseWriter" where
  "header_Del w k = w\<lparr>rwHeader := (rwHeader w)(k := None)\<rparr>"

definition http_Error :: "ResponseWriter \<Rightarrow> string \<Rightarrow> nat \<Rightarrow> ResponseWriter" where
  "http_Error w msg code =
     (let w1 = header_Del w ''Content-Length'';
          w2 = header_Set w1 ''Content-Type'' ''text/plain; charset=utf-8'';
          w3 = header_Set w2 ''X-Content-Type-Options'' ''nosniff'';
          w4 = WriteHeader w3 code
      in rw_Write w4 (bytesOf (msg @ [CHR 0x0A])))"

definition StatusTooManyRequests :: nat where
  "StatusTooManyRequests = 429"

definition StatusInternalServerError :: nat where
  "StatusInternalServerError = 500"

text \<open>
  One request: \<open>allow\<close> is what \<^verbatim>\<open>limiter.Allow()\<close> answers, \<open>reqBody\<close> what
  \<^verbatim>\<open>io.ReadAll(r.Body)\<close> returns. The result is the response and the upstream calls.
\<close>

definition handleDoHRequest ::
  "'rr resolverEnv \<Rightarrow> Config \<Rightarrow> bool \<Rightarrow> (error + bytes) \<Rightarrow> ResponseWriter
     \<Rightarrow> ResponseWriter \<times> request list" where
  "handleDoHRequest E config allow reqBody w =
     (if \<not> allow then (http_Error w ''Rate limit exceeded'' StatusTooManyRequests, [])
      else
        (case reqBody of
           Inl err \<Rightarrow> (http_Error w ''Failed to read request body'' StatusInternalServerError, [])
         | Inr query \<Rightarrow>
             (case processDNSQuery E config query of
                (Inl err, calls) \<Rightarrow>
                  (http_Error w ''Failed to pack DNS response'' StatusInternalServerError, calls)
              | (Inr dnsResponse, calls) \<Rightarrow>
                  (rw_Write (header_Set w ''Content-Type'' ''application/dns-message'') dnsResponse,
                   calls))))"

section \<open>Connections\<close>

text \<open>
  One end of a TCP or TLS connection, as this node holds it: the bytes the peer sends
  before its side of the stream ends, the bytes written to the peer so far, how many
  more bytes the peer accepts before a write fails (\<open>None\<close>: every write succeeds),
  and whether the write side or the whole connection has been closed here.
\<close>

record conn =
  incoming :: bytes
  outgoing :: bytes
  wcap :: "nat option"
  wclosed :: bool
  isClosed :: bool

definition conn_Write :: "conn \<Rightarrow> bytes \<Rightarrow> conn \<times> error option" where
  "conn_Write c p =
     (if isClosed c \<or> wclosed c then (c, Some (Err ''use of closed network connection''))
      else
        (case wcap c of
           None \<Rightarrow> (c\<lparr>outgoing := outgoing c @ p\<rparr>, None)
         | Some k \<Rightarrow>
             if length p \<le> k
             then (c\<lparr>outgoing := outgoing c @ p, wcap := Some (k - length p)\<rparr>, None)
             else (c\<lparr>outgoing := outgoing c @ take k p, wcap := Some 0\<rparr>,
                   Some (Err ''write: broken pipe''))))"

text \<open>\<^verbatim>\<open>conn.Read(p)\<close> with \<open>len(p) = n\<close>: up to \<open>n\<close> bytes, \<^verbatim>\<open>io.EOF\<close> at the end.\<close>

definition conn_Read :: "conn \<Rightarrow> nat \<Rightarrow> bytes \<times> error option \<times> conn" where
  "conn_Read c n =
     (if incoming c = [] \<and> 0 < n then ([], Some ErrEOF, c)
      else (take n (incoming c), None, c\<lparr>incoming := drop n (incoming c)\<rparr>))"

text \<open>\<^verbatim>\<open>io.ReadFull(conn, buf)\<close> with \<open>len(buf) = n\<close>.\<close>

definition ReadFull :: "conn \<Rightarrow> nat \<Rightarrow> (error + bytes) \<times> conn" where
  "ReadFull c n =
     (if n \<le> length (incoming c)
      then (Inr (take n (incoming c)), c\<lparr>incoming := drop n (incoming c)\<rparr>)
      else if incoming c = [] then (Inl ErrEOF, c)
      else (Inl ErrUnexpectedEOF, c\<lparr>incoming := []\<rparr>))"

definition conn_Close :: "conn \<Rightarrow> conn" where
  "conn_Close c = c\<lparr>isClosed := True\<rparr>"

definition CloseWrite :: "conn \<Rightarrow> conn" where
  "CloseWrite c = c\<lparr>wclosed := True\<rparr>"

text \<open>
  \<^verbatim>\<open>io.Copy(dst, src)\<close> between two connections: what \<open>src\<close> yields up to its end is
  written to \<open>dst\<close> in order; the copy stops at the first write that fails, and what
  had been written by then has left \<open>src\<close>. \<open>Copy_buffer\<close> is the same from a
  \<^verbatim>\<open>bytes.Buffer\<close>.
\<close>

definition Copy :: "conn \<Rightarrow> conn \<Rightarrow> conn \<times> conn" where
  "Copy dst src =
     (case conn_Write dst (incoming src) of
        (dst', None) \<Rightarrow> (dst', src\<lparr>incoming := []\<rparr>)
      | (dst', Some err) \<Rightarrow>
          (dst', src\<lparr>incoming := drop (length (outgoing dst') - length (outgoing dst)) (incoming src)\<rparr>))"

definition Copy_buffer :: "conn \<Rightarrow> bytes \<Rightarrow> conn" where
  "Copy_buffer dst buf = fst (conn_Write dst buf)"

text \<open>Two states of a connection with the same write side.\<close>

definition sameWriter :: "conn \<Rightarrow> conn \<Rightarrow> bool" where
  "sameWriter a b \<longleftrightarrow>
     outgoing a = outgoing b \<and> wcap a = wcap b \<and> wclosed a = wclosed b \<and>
     isClosed a = isClosed b"

section \<open>The DoT front-end\<close>

text \<open>\<^verbatim>\<open>binary.BigEndian.Uint16\<close> and \<^verbatim>\<open>PutUint16\<close>, on slices of at least two bytes.\<close>

definition Uint16 :: "bytes \<Rightarrow> 16 word" where
  "Uint16 b = ucast (b ! 1) OR push_bit 8 (ucast (b ! 0))"

definition PutUint16 :: "bytes \<Rightarrow> 16 word \<Rightarrow> bytes" where
  "PutUint16 b v = (b[0 := ucast (drop_bit 8 v)])[1 := ucast v]"

text \<open>
  One connection: \<open>allow\<close> is what \<^verbatim>\<open>limiter.Allow()\<close> answers. \<open>uint16(len(response))\<close>
  keeps the low 16 bits of the length. The deferred \<^verbatim>\<open>conn.Close()\<close> runs on every path.
\<close>

definition handleDoTConnection ::
  "'rr resolverEnv \<Rightarrow> Config \<Rightarrow> bool \<Rightarrow> conn \<Rightarrow> conn \<times> request list" where
  "handleDoTConnection E config allow c =
     (if \<not> allow then (conn_Close c, [])
      else
        (case ReadFull c 2 of
           (Inl err, c1) \<Rightarrow> (conn_Close c1, [])
         | (Inr lengthBuf, c1) \<Rightarrow>
             let dnsMessageLength = Uint16 lengthBuf in
             (case ReadFull c1 (unat dnsMessageLength) of
                (Inl err, c2) \<Rightarrow> (conn_Close c2, [])
              | (Inr buffer, c2) \<Rightarrow>
                  (case processDNSQuery E config buffer of
                     (Inl err, calls) \<Rightarrow> (conn_Close c2, calls)
                   | (Inr response, calls) \<Rightarrow>
                       let responseLength =
                             PutUint16 (replicate 2 0) (word_of_nat (length response))
                       in (case conn_Write c2 responseLength of
                             (c3, Some err) \<Rightarrow> (conn_Close c3, calls)
                           | (c3, None) \<Rightarrow>
                               (case conn_Write c3 response of
                                  (c4, Some err) \<Rightarrow> (conn_Close c4, calls)
                                | (c4, None) \<Rightarrow> (conn_Close c4, calls)))))))"

section \<open>The ClientHello sniffer\<close>

text \<open>
  \<^verbatim>\<open>io.TeeReader(reader, peekedBytes)\<close>: the connection read from, and the buffer that
  receives a copy of every byte read.
\<close>

record teeReader =
  teeSource :: conn
  teeBuffer :: bytes

definition tee_Read :: "teeReader \<Rightarrow> nat \<Rightarrow> bytes \<times> error option \<times> teeReader" where
  "tee_Read t n =
     (case conn_Read (teeSource t) n of
        (p, err, src) \<Rightarrow>
          (p, err, t\<lparr>teeSource := src,
                     teeBuffer := (if 0 < length p then teeBuffer t @ p else teeBuffer t)\<rparr>))"

text \<open>
  \<open>readOnlyConn\<close> wraps a reader; the only reader the program puts there is the tee.
  Each method returns its Go results and the adapter afterwards. A \<^verbatim>\<open>*teeReader\<close> is
  not an \<^verbatim>\<open>io.Closer\<close>, so \<open>Close\<close> returns \<^verbatim>\<open>nil\<close>.
\<close>

record readOnlyConn =
  reader :: teeReader

definition roc_Read :: "readOnlyConn \<Rightarrow> nat \<Rightarrow> (bytes \<times> error option) \<times> readOnlyConn" where
  "roc_Read c n =
     (case tee_Read (reader c) n of (p, err, t) \<Rightarrow> ((p, err), c\<lparr>reader := t\<rparr>))"

definition roc_Write :: "readOnlyConn \<Rightarrow> bytes \<Rightarrow> (nat \<times> error option) \<times> readOnlyConn" where
  "roc_Write c p = ((0, Some ErrClosedPipe), c)"

definition roc_Close :: "readOnlyConn \<Rightarrow> error option \<times> readOnlyConn" where
  "roc_Close c = (None, c)"

definition roc_SetDeadline :: "readOnlyConn \<Rightarrow> 't \<Rightarrow> error option \<times> readOnlyConn" where
  "roc_SetDeadline c t = (None, c)"

definition roc_SetReadDeadline :: "readOnlyConn \<Rightarrow> 't \<Rightarrow> error option \<times> readOnlyConn" where
  "roc_SetReadDeadline c t = (None, c)"

definition roc_SetWriteDeadline :: "readOnlyConn \<Rightarrow> 't \<Rightarrow> error option \<times> readOnlyConn" where
  "roc_SetWriteDeadline c t = (None, c)"

text \<open>
  The TLS library is a client of that \<^verbatim>\<open>net.Conn\<close>. Its server handshake is given by
  what it does for each content of the client's stream: the calls it makes on the
  connection, the \<^verbatim>\<open>ClientHelloInfo\<close> it hands to \<^verbatim>\<open>GetConfigForClient\<close> when it has
  parsed a ClientHello (it calls the hook at most once, inside \<^verbatim>\<open>Handshake\<close>), and the
  error \<^verbatim>\<open>Handshake\<close> returns, which is never \<^verbatim>\<open>nil\<close> here since no handshake completes
  on a connection that cannot be written.
\<close>

record ClientHelloInfo =
  ServerName :: string

datatype 't connCall =
    CallRead nat
  | CallWrite bytes
  | CallClose
  | CallSetDeadline 't
  | CallSetReadDeadline 't
  | CallSetWriteDeadline 't

record 't tlsLib =
  connCalls :: "bytes \<Rightarrow> 't connCall list"
  parsedHello :: "bytes \<Rightarrow> ClientHelloInfo option"
  handshakeError :: "bytes \<Rightarrow> error"

fun doCall :: "readOnlyConn \<Rightarrow> 't connCall \<Rightarrow> readOnlyConn" where
  "doCall c (CallRead n) = snd (roc_Read c n)"
| "doCall c (CallWrite p) = snd (roc_Write c p)"
| "doCall c CallClose = snd (roc_Close c)"
| "doCall c (CallSetDeadline t) = snd (roc_SetDeadline c t)"
| "doCall c (CallSetReadDeadline t) = snd (roc_SetReadDeadline c t)"
| "doCall c (CallSetWriteDeadline t) = snd (roc_SetWriteDeadline c t)"

text \<open>\<open>st\<close> holds the variables the hook captures; the hook runs when a hello was parsed.\<close>

definition Handshake ::
  "'t tlsLib \<Rightarrow> (ClientHelloInfo \<Rightarrow> 's \<Rightarrow> 's) \<Rightarrow> 's \<Rightarrow> readOnlyConn
     \<Rightarrow> error \<times> 's \<times> readOnlyConn" where
  "Handshake L getConfigForClient st c =
     (let stream = incoming (teeSource (reader c)) in
      (handshakeError L stream,
       (case parsedHello L stream of None \<Rightarrow> st | Some argHello \<Rightarrow> getConfigForClient argHello st),
       foldl doCall c (connCalls L stream)))"

text \<open>
  A \<^verbatim>\<open>sync.WaitGroup\<close> is its counter. \<^verbatim>\<open>Wait\<close> returns when the counter is zero; with
  a positive counter it blocks until another goroutine brings it to zero. The group of
  \<open>readClientHello\<close> is local and no other goroutine holds it, so \<^verbatim>\<open>Wait\<close> with a
  positive counter never returns: the value \<open>None\<close>.
\<close>

definition wg_Add :: "int \<Rightarrow> int \<Rightarrow> int" where
  "wg_Add wg delta = wg + delta"

definition wg_Done :: "int \<Rightarrow> int" where
  "wg_Done wg = wg_Add wg (- 1)"

definition wg_Wait :: "int \<Rightarrow> unit option" where
  "wg_Wait wg = (if wg = 0 then Some () else None)"

text \<open>\<open>readClientHello\<close> returns its Go result and the reader afterwards, or never returns.\<close>

definition readClientHello ::
  "'t tlsLib \<Rightarrow> teeReader \<Rightarrow> ((error + ClientHelloInfo) \<times> teeReader) option" where
  "readClientHello L rdr =
     (let hello = None;
          wg = wg_Add 0 1;
          (err, (hello, wg), tlsConn) =
             Handshake L (\<lambda>argHello (hello, wg). (Some argHello, wg_Done wg)) (hello, wg)
               \<lparr>reader = rdr\<rparr>
      in (case wg_Wait wg of
            None \<Rightarrow> None
          | Some _ \<Rightarrow>
              (case hello of
                 None \<Rightarrow> Some (Inl err, reader tlsConn)
               | Some h \<Rightarrow> Some (Inr h, reader tlsConn))))"

text \<open>\<open>peekClientHello\<close> returns its Go result and the connection afterwards.\<close>

definition peekClientHello ::
  "'t tlsLib \<Rightarrow> conn \<Rightarrow> ((error + ClientHelloInfo \<times> bytes) \<times> conn) option" where
  "peekClientHello L rdr =
     (let peekedBytes = [] in
      (case readClientHello L \<lparr>teeSource = rdr, teeBuffer = peekedBytes\<rparr> of
         None \<Rightarrow> None
       | Some (Inl err, t) \<Rightarrow> Some (Inl err, teeSource t)
       | Some (Inr hello, t) \<Rightarrow> Some (Inr (hello, teeBuffer t), teeSource t)))"

section \<open>The SNI router\<close>

text \<open>\<^verbatim>\<open>net.JoinHostPort\<close> puts a host that contains a colon in brackets.\<close>

definition JoinHostPort :: "string \<Rightarrow> string \<Rightarrow> string" where
  "JoinHostPort host port =
     (if CHR '':'' \<in> set host then ''['' @ host @ '']:'' @ port else host @ '':'' @ port)"

text \<open>
  The two goroutines of the relay. One copies backend to client, the other replays the
  peeked buffer and then copies client to backend; each closes the write side of its
  destination at the end. They read and write disjoint halves of the two connections:
  each is given as a function on the pair of connections, and \<open>handleConnection\<close>
  below composes them (in either order the result is the same).
\<close>

definition toClient :: "conn \<Rightarrow> conn \<Rightarrow> conn \<times> conn" where
  "toClient clientConn backendConn =
     (case Copy clientConn backendConn of (c, b) \<Rightarrow> (CloseWrite c, b))"

definition toBackend :: "bytes \<Rightarrow> conn \<Rightarrow> conn \<Rightarrow> conn \<times> conn" where
  "toBackend clientHelloBytes clientConn backendConn =
     (case Copy (Copy_buffer backendConn clientHelloBytes) clientConn of
        (b, c) \<Rightarrow> (c, CloseWrite b))"

text \<open>
  What \<open>handleConnection\<close> meets outside the program: the outcome of the two
  \<^verbatim>\<open>SetReadDeadline\<close> calls on the client connection, and \<^verbatim>\<open>net.DialTimeout\<close>. Its
  result lists the addresses dialled and the two connections at the end, or is
  \<open>None\<close> when it never returns.
\<close>

record sniWorld =
  setDeadline :: "error option"
  clearDeadline :: "error option"
  DialTimeout :: "string \<Rightarrow> error + conn"

record sniOutcome =
  dialled :: "string list"
  clientEnd :: conn
  backendEnd :: "conn option"

definition handleConnection ::
  "'t tlsLib \<Rightarrow> (string \<Rightarrow> string) \<Rightarrow> Config \<Rightarrow> sniWorld \<Rightarrow> conn \<Rightarrow> sniOutcome option" where
  "handleConnection L u config W clientConn =
     (case setDeadline W of
        Some err \<Rightarrow>
          Some \<lparr>dialled = [], clientEnd = conn_Close clientConn, backendEnd = None\<rparr>
      | None \<Rightarrow>
          (case peekClientHello L clientConn of
             None \<Rightarrow> None
           | Some (Inl err, c1) \<Rightarrow>
               Some \<lparr>dialled = [], clientEnd = conn_Close c1, backendEnd = None\<rparr>
           | Some (Inr (clientHello, clientHelloBytes), c1) \<Rightarrow>
               (case clearDeadline W of
                  Some err \<Rightarrow>
                    Some \<lparr>dialled = [], clientEnd = conn_Close c1, backendEnd = None\<rparr>
                | None \<Rightarrow>
                    let targetHost = ToLower u (ServerName clientHello);
                        targetHost =
                          (if targetHost = Host config then JoinHostPort targetHost ''8443''
                           else JoinHostPort targetHost ''443'')
                    in (case DialTimeout W targetHost of
                          Inl err \<Rightarrow>
                            Some \<lparr>dialled = [targetHost], clientEnd = conn_Close c1,
                                  backendEnd = None\<rparr>
                        | Inr backendConn \<Rightarrow>
                            (case toBackend clientHelloBytes c1 backendConn of
                               (c2, b2) \<Rightarrow>
                                 (case toClient c2 b2 of
                                    (c3, b3) \<Rightarrow>
                                      Some \<lparr>dialled = [targetHost],
                                            clientEnd = conn_Close c3,
                                            backendEnd = Some (conn_Close b3)\<rparr>))))))"

section \<open>A stand-in for the TLS library\<close>

text \<open>
  As for the DNS library, the theorems hold for every behaviour of the TLS library;
  the closed examples use this one. It reads one TLS record, accepts it when it is a
  handshake record holding a ClientHello, and takes the server name from the
  \<^verbatim>\<open>server_name\<close> extension (the empty name when there is none). It then tries to
  send an alert, as a server without certificates does.
\<close>

definition len16 :: "byte \<Rightarrow> byte \<Rightarrow> nat" where
  "len16 hi lo = unat (be16 hi lo)"

definition skipVec8 :: "bytes \<Rightarrow> bytes option" where
  "skipVec8 b =
     (case b of
        [] \<Rightarrow> None
      | n # r \<Rightarrow> if length r < unat n then None else Some (drop (unat n) r))"

definition skipVec16 :: "bytes \<Rightarrow> bytes option" where
  "skipVec16 b =
     (case b of
        hi # lo # r \<Rightarrow> if length r < len16 hi lo then None else Some (drop (len16 hi lo) r)
      | _ \<Rightarrow> None)"

fun serverNameOf :: "nat \<Rightarrow> bytes \<Rightarrow> string option" where
  "serverNameOf 0 exts = None"
| "serverNameOf (Suc f) [] = Some []"
| "serverNameOf (Suc f) (t1 # t2 # l1 # l2 # rest) =
     (if length rest < len16 l1 l2 then None
      else if be16 t1 t2 = 0 then
        (case take (len16 l1 l2) rest of
           ll1 # ll2 # ty # n1 # n2 # name \<Rightarrow>
             if ty = 0 \<and> len16 n1 n2 = length name
             then Some (map (\<lambda>b. char_of (unat b)) name) else None
         | _ \<Rightarrow> None)
      else serverNameOf f (drop (len16 l1 l2) rest))"
| "serverNameOf (Suc f) exts = None"

definition parseClientHello :: "bytes \<Rightarrow> string option" where
  "parseClientHello s =
     (case s of
        ct # v1 # v2 # l1 # l2 # rest \<Rightarrow>
          if ct \<noteq> 22 \<or> length rest < len16 l1 l2 then None
          else
            (case take (len16 l1 l2) rest of
               ht # h1 # h2 # h3 # cv1 # cv2 # body \<Rightarrow>
                 if ht \<noteq> 1 \<or> length body < 32 then None
                 else
                   Option.bind (skipVec8 (drop 32 body)) (\<lambda>b1.
                   Option.bind (skipVec16 b1) (\<lambda>b2.
                   Option.bind (skipVec8 b2) (\<lambda>b3.
                     (case b3 of
                        [] \<Rightarrow> Some []
                      | [e] \<Rightarrow> None
                      | e1 # e2 # exts \<Rightarrow>
                          if length exts < len16 e1 e2 then None
                          else serverNameOf (Suc (length exts)) (take (len16 e1 e2) exts)))))
             | _ \<Rightarrow> None)
      | _ \<Rightarrow> None)"

definition plainTLS :: "nat tlsLib" where
  "plainTLS =
     \<lparr>connCalls = (\<lambda>s. [CallSetReadDeadline 0, CallRead 5,
                         CallRead (case s of ct # v1 # v2 # l1 # l2 # rest \<Rightarrow> len16 l1 l2 | _ \<Rightarrow> 0),
                         CallWrite [21, 3, 3, 0, 2, 2, 80]]),
      parsedHello = (\<lambda>s. map_option (\<lambda>n. \<lparr>ServerName = n\<rparr>) (parseClientHello s)),
      handshakeError =
        (\<lambda>s. case parseClientHello s of
                None \<Rightarrow> Err ''tls: first record does not look like a TLS handshake''
              | Some n \<Rightarrow> Err ''tls: no certificates configured'')\<rparr>"

text \<open>A minimal ClientHello record that names \<open>name\<close>.\<close>

definition clientHelloFor :: "string \<Rightarrow> bytes" where
  "clientHelloFor name =
     (let n = length name;
          ext = [0, 0] @ put16 (of_nat (n + 5)) @ put16 (of_nat (n + 3)) @ [0]
                @ put16 (of_nat n) @ bytesOf name;
          hello = [3, 3] @ replicate 32 0 @ [0] @ [0, 2, 0x13, 0x01] @ [1, 0]
                  @ put16 (of_nat (length ext)) @ ext;
          hs = [1, 0] @ put16 (of_nat (length hello)) @ hello
      in [22, 3, 1] @ put16 (of_nat (length hs)) @ hs)"

text \<open>A fresh connection on which the peer sends \<open>s\<close> and accepts every write, and a
  world in which the deadline calls succeed and every dial reaches a backend that
  sends \<open>reply\<close>.\<close>

definition freshConn :: "bytes \<Rightarrow> conn" where
  "freshConn s = \<lparr>incoming = s, outgoing = [], wcap = None, wclosed = False, isClosed = False\<rparr>"

definition reachable :: "bytes \<Rightarrow> sniWorld" where
  "reachable reply =
     \<lparr>setDeadline = None, clearDeadline = None, DialTimeout = (\<lambda>addr. Inr (freshConn reply))\<rparr>"

text \<open>An upstream whose response body has 65536 bytes, and a DoT client that sends the
  query for \<^verbatim>\<open>foo.example.com\<close>, or the one for \<^verbatim>\<open>other.org\<close>, in a frame.\<close>

definition oversized :: bytes where
  "oversized = replicate 65536 0"

definition upstreamOversized :: "arec resolverEnv" where
  "upstreamOversized = plainEnv (Inr (Inr oversized))"

definition dotClientFoo :: conn where
  "dotClientFoo = freshConn ([0, 33] @ fooQuery)"

definition dotClientOther :: conn where
  "dotClientOther = freshConn ([0, 27] @ otherQuery)"


definition sniClientOther :: conn where
  "sniClientOther = freshConn (clientHelloFor ''other.org'' @ [1, 2, 3])"

definition sniClientSilent :: conn where
  "sniClientSilent = freshConn []"

section \<open>Facts about the override lookup\<close>

lemma Contains_iff: "Contains s sub \<longleftrightarrow> (\<exists>p q. s = p @ sub @ q)"
proof (induction s)
  case Nil
  then show ?case by auto
next
  case (Cons c s)
  show ?case
  proof
    assume "Contains (c # s) sub"
    then consider "prefix sub (c # s)" | "Contains s sub" by auto
    then show "\<exists>p q. c # s = p @ sub @ q"
    proof cases
      case 1
      then obtain q where "c # s = sub @ q" by (auto simp: prefix_def)
      then have "c # s = [] @ sub @ q" by simp
      then show ?thesis by blast
    next
      case 2
      with Cons.IH obtain p q where "s = p @ sub @ q" by blast
      then have "c # s = (c # p) @ sub @ q" by simp
      then show ?thesis by blast
    qed
  next
    assume "\<exists>p q. c # s = p @ sub @ q"
    then obtain p q where pq: "c # s = p @ sub @ q" by blast
    show "Contains (c # s) sub"
    proof (cases p)
      case Nil
      with pq have "prefix sub (c # s)" by (simp add: prefix_def)
      then show ?thesis by simp
    next
      case (Cons a p')
      with pq have "s = p' @ sub @ q" by simp
      with Cons.IH have "Contains s sub" by blast
      then show ?thesis by simp
    qed
  qed
qed

lemma Contains_empty: "Contains s []"
  by (induction s) auto

lemma ToLower_empty: "ToLower u [] = []"
  by (simp add: ToLower_def isASCII_def)

lemma find_first:
  "list_all (\<lambda>(k, v). \<not> Contains (ToLower u s) (ToLower u k)) pre \<Longrightarrow>
   Contains (ToLower u s) (ToLower u key) \<Longrightarrow>
   findValueByKeyContains u (pre @ (key, ip) # post) s = (ip, True)"
  by (induction pre) auto

lemma find_none:
  "list_all (\<lambda>(k, v). \<not> Contains (ToLower u s) (ToLower u k)) m \<Longrightarrow>
   findValueByKeyContains u m s = ('''', False)"
  by (induction m) auto

lemma find_split:
  "list_ex (\<lambda>(k, v). Contains (ToLower u s) (ToLower u k)) m \<Longrightarrow>
   \<exists>pre key ip post. m = pre @ (key, ip) # post \<and> Contains (ToLower u s) (ToLower u key) \<and>
     list_all (\<lambda>(k, v). \<not> Contains (ToLower u s) (ToLower u k)) pre"
proof (induction m)
  case Nil
  then show ?case by simp
next
  case (Cons a m)
  obtain k v where a: "a = (k, v)" by (cases a)
  show ?case
  proof (cases "Contains (ToLower u s) (ToLower u k)")
    case True
    then have "a # m = [] @ (k, v) # m \<and> Contains (ToLower u s) (ToLower u k) \<and>
      list_all (\<lambda>(k, v). \<not> Contains (ToLower u s) (ToLower u k)) []" using a by simp
    then show ?thesis by blast
  next
    case False
    with Cons.prems a have "list_ex (\<lambda>(k, v). Contains (ToLower u s) (ToLower u k)) m" by simp
    with Cons.IH obtain pre key ip post where
      h: "m = pre @ (key, ip) # post" "Contains (ToLower u s) (ToLower u key)"
         "list_all (\<lambda>(k, v). \<not> Contains (ToLower u s) (ToLower u k)) pre" by blast
    then have "a # m = (a # pre) @ (key, ip) # post \<and> Contains (ToLower u s) (ToLower u key) \<and>
      list_all (\<lambda>(k, v). \<not> Contains (ToLower u s) (ToLower u k)) (a # pre)"
      using False a by simp
    then show ?thesis by blast
  qed
qed

lemma find_empty_key:
  assumes "([], v) \<in> set m"
  shows "list_ex (\<lambda>(k, v). Contains (ToLower u s) (ToLower u k)) m"
proof -
  have "Contains (ToLower u s) (ToLower u [])"
    by (simp add: ToLower_empty Contains_empty)
  with assms show ?thesis
    unfolding list_ex_iff by (intro bexI [of _ "([], v)"]) auto
qed

section \<open>Facts about the resolver\<close>

lemma processDNSQuery_local:
  assumes "Unpack E query = Inr msg" and "Question msg \<noteq> []"
    and "findValueByKeyContains (unicodeLower E) (Domains config) (Name (Question msg ! 0)) = (ip, True)"
  shows "processDNSQuery E config query =
           ((case NewRR E (Name (Question msg ! 0) @ '' A '' @ ip) of
               Inl err \<Rightarrow> Inl err
             | Inr rr \<Rightarrow> Pack E (msg\<lparr>Answer := Answer msg @ [rr]\<rparr>)), [])"
  using assms by (simp add: processDNSQuery_def split: sum.splits)

lemma processDNSQuery_upstream:
  assumes "Unpack E query = Inr msg" and "Question msg \<noteq> []"
    and "findValueByKeyContains (unicodeLower E) (Domains config) (Name (Question msg ! 0)) = (ip, False)"
  shows "processDNSQuery E config query =
           ((case Post E ''https://1.1.1.1/dns-query'' ''application/dns-message'' query of
               Inl err \<Rightarrow> Inl err
             | Inr body \<Rightarrow> body),
            [(''https://1.1.1.1/dns-query'', ''application/dns-message'', query)])"
  using assms by (simp add: processDNSQuery_def split: sum.splits)

lemma unpack_fooQuery: "plainUnpack fooQuery = Inr fooMsg"
  by code_simp

lemma unpack_otherQuery: "plainUnpack otherQuery = Inr otherMsg"
  by code_simp

lemma Unpack_plainEnv: "Unpack (plainEnv up) = plainUnpack"
  by (simp add: plainEnv_def)

lemma unicodeLower_plainEnv: "unicodeLower (plainEnv up) = (\<lambda>s. s)"
  by (simp add: plainEnv_def)

lemma Post_plainEnv: "Post (plainEnv up) url ct body = up"
  by (simp add: plainEnv_def)

lemma other_matches_nothing:
  "findValueByKeyContains (\<lambda>s. s) (Domains exampleConfig) (Name (Question otherMsg ! 0)) = ('''', False)"
  by code_simp

lemma processDNSQuery_other:
  "processDNSQuery (plainEnv up) exampleConfig otherQuery =
     ((case up of Inl err \<Rightarrow> Inl err | Inr body \<Rightarrow> body),
      [(''https://1.1.1.1/dns-query'', ''application/dns-message'', otherQuery)])"
proof -
  have 1: "Unpack (plainEnv up) otherQuery = Inr otherMsg"
    by (simp add: Unpack_plainEnv unpack_otherQuery)
  have 2: "Question otherMsg \<noteq> []" by (simp add: otherMsg_def)
  have 3: "findValueByKeyContains (unicodeLower (plainEnv up)) (Domains exampleConfig)
             (Name (Question otherMsg ! 0)) = ('''', False)"
    by (simp only: unicodeLower_plainEnv other_matches_nothing)
  show ?thesis
    using processDNSQuery_upstream [OF 1 2 3] by (simp only: Post_plainEnv)
qed

lemma resolve_foo: "processDNSQuery upstreamDown exampleConfig fooQuery = (Inr fooAnswer, [])"
  by code_simp

section \<open>The resolver: local overrides\<close>

text \<open>
  C1. When the query unpacks with at least one question and the lower-cased name of
  the first question contains some lower-cased override key, the resolver makes no
  upstream call, and the key that decides is the first one in iteration order that is
  contained: the table splits into entries that do not match, that key with its
  address, and the rest. The result is what the library makes of it: the error of
  \<^verbatim>\<open>NewRR\<close> when it does not accept \<^verbatim>\<open><name> A <address>\<close>, otherwise what \<^verbatim>\<open>Pack\<close>
  returns for the query message with that one record appended to its answers.
\<close>

theorem override_answered_locally:
  assumes "Unpack E query = Inr msg" and "Question msg \<noteq> []"
    and "list_ex (\<lambda>(k, v). Contains (ToLower (unicodeLower E) (Name (Question msg ! 0)))
                                   (ToLower (unicodeLower E) k)) (Domains config)"
  shows "\<exists>pre key ip post.
           Domains config = pre @ (key, ip) # post \<and>
           Contains (ToLower (unicodeLower E) (Name (Question msg ! 0)))
                    (ToLower (unicodeLower E) key) \<and>
           list_all (\<lambda>(k, v). \<not> Contains (ToLower (unicodeLower E) (Name (Question msg ! 0)))
                                       (ToLower (unicodeLower E) k)) pre \<and>
           processDNSQuery E config query =
             ((case NewRR E (Name (Question msg ! 0) @ '' A '' @ ip) of
                 Inl err \<Rightarrow> Inl err
               | Inr rr \<Rightarrow> Pack E (msg\<lparr>Answer := Answer msg @ [rr]\<rparr>)), [])"
proof -
  from find_split [OF assms(3)] obtain pre key ip post where
    h: "Domains config = pre @ (key, ip) # post"
       "Contains (ToLower (unicodeLower E) (Name (Question msg ! 0))) (ToLower (unicodeLower E) key)"
       "list_all (\<lambda>(k, v). \<not> Contains (ToLower (unicodeLower E) (Name (Question msg ! 0)))
                                       (ToLower (unicodeLower E) k)) pre"
    by blast
  from find_first [OF h(3) h(2)] h(1)
  have "findValueByKeyContains (unicodeLower E) (Domains config) (Name (Question msg ! 0)) = (ip, True)"
    by simp
  from processDNSQuery_local [OF assms(1) assms(2) this] h show ?thesis by blast
qed

text \<open>The example of the specification: \<^verbatim>\<open>foo.example.com\<close> is answered with 10.0.0.5.\<close>

theorem override_answered_locally_witness:
  "Unpack upstreamDown fooQuery = Inr fooMsg \<and> Question fooMsg \<noteq> [] \<and>
   list_ex (\<lambda>(k, v). Contains (ToLower (unicodeLower upstreamDown) (Name (Question fooMsg ! 0)))
                              (ToLower (unicodeLower upstreamDown) k)) (Domains exampleConfig) \<and>
   (\<exists>pre key ip post.
      Domains exampleConfig = pre @ (key, ip) # post \<and>
      Contains (ToLower (unicodeLower upstreamDown) (Name (Question fooMsg ! 0)))
               (ToLower (unicodeLower upstreamDown) key) \<and>
      list_all (\<lambda>(k, v). \<not> Contains (ToLower (unicodeLower upstreamDown) (Name (Question fooMsg ! 0)))
                                  (ToLower (unicodeLower upstreamDown) k)) pre \<and>
      processDNSQuery upstreamDown exampleConfig fooQuery =
        ((case NewRR upstreamDown (Name (Question fooMsg ! 0) @ '' A '' @ ip) of
            Inl err \<Rightarrow> Inl err
          | Inr rr \<Rightarrow> Pack upstreamDown (fooMsg\<lparr>Answer := Answer fooMsg @ [rr]\<rparr>)), [])) \<and>
   processDNSQuery upstreamDown exampleConfig fooQuery = (Inr fooAnswer, [])"
proof -
  have 1: "Unpack upstreamDown fooQuery = Inr fooMsg" by code_simp
  have 2: "Question fooMsg \<noteq> []" by code_simp
  have 3: "list_ex (\<lambda>(k, v). Contains (ToLower (unicodeLower upstreamDown) (Name (Question fooMsg ! 0)))
                              (ToLower (unicodeLower upstreamDown) k)) (Domains exampleConfig)"
    by code_simp
  have 4: "processDNSQuery upstreamDown exampleConfig fooQuery = (Inr fooAnswer, [])"
    by code_simp
  from 1 2 3 4 override_answered_locally [OF 1 2 3] show ?thesis by blast
qed

text \<open>
  The claim as written promises a packed response for every such query. With an
  override whose address is an IPv6 literal the name matches, no record can be made
  from \<^verbatim>\<open>foo.example.com. A 2001:db8::5\<close>, and the resolver returns that error.
\<close>

theorem override_ipv6_not_answered:
  "Unpack upstreamDown fooQuery = Inr fooMsg \<and> Question fooMsg \<noteq> [] \<and>
   Contains (ToLower (unicodeLower upstreamDown) (Name (Question fooMsg ! 0)))
            (ToLower (unicodeLower upstreamDown) ''example.com'') \<and>
   Domains ipv6Config = [(''example.com'', ''2001:db8::5'')] \<and>
   processDNSQuery upstreamDown ipv6Config fooQuery = (Inl (Err ''dns: bad A A''), []) \<and>
   fst (processDNSQuery upstreamDown ipv6Config fooQuery) \<noteq> Inr fooAnswer"
proof -
  have 1: "Unpack upstreamDown fooQuery = Inr fooMsg" by code_simp
  have 2: "Question fooMsg \<noteq> []" by code_simp
  have 3: "Contains (ToLower (unicodeLower upstreamDown) (Name (Question fooMsg ! 0)))
            (ToLower (unicodeLower upstreamDown) ''example.com'')" by code_simp
  have 4: "Domains ipv6Config = [(''example.com'', ''2001:db8::5'')]" by code_simp
  have 5: "processDNSQuery upstreamDown ipv6Config fooQuery = (Inl (Err ''dns: bad A A''), [])"
    by code_simp
  from 1 2 3 4 5 show ?thesis by simp
qed

text \<open>
  C9. When the override table has an entry whose key is the empty string, the lookup
  succeeds for every query that unpacks with at least one question (the empty string
  is contained in every name), the local branch is taken and no upstream call is
  made. The result is that of the local branch: the packed answer, or the error of
  \<^verbatim>\<open>NewRR\<close> or \<^verbatim>\<open>Pack\<close>.
\<close>

theorem empty_key_matches_every_query:
  assumes "Unpack E query = Inr msg" and "Question msg \<noteq> []"
    and "([], v) \<in> set (Domains config)"
  shows "\<exists>ip. findValueByKeyContains (unicodeLower E) (Domains config) (Name (Question msg ! 0))
                 = (ip, True) \<and>
              processDNSQuery E config query =
                ((case NewRR E (Name (Question msg ! 0) @ '' A '' @ ip) of
                    Inl err \<Rightarrow> Inl err
                  | Inr rr \<Rightarrow> Pack E (msg\<lparr>Answer := Answer msg @ [rr]\<rparr>)), [])"
proof -
  from find_split [OF find_empty_key [OF assms(3)]] obtain pre key ip post where
    h: "Domains config = pre @ (key, ip) # post"
       "Contains (ToLower (unicodeLower E) (Name (Question msg ! 0))) (ToLower (unicodeLower E) key)"
       "list_all (\<lambda>(k, v). \<not> Contains (ToLower (unicodeLower E) (Name (Question msg ! 0)))
                                       (ToLower (unicodeLower E) k)) pre"
    by blast
  from find_first [OF h(3) h(2)] h(1)
  have f: "findValueByKeyContains (unicodeLower E) (Domains config) (Name (Question msg ! 0)) = (ip, True)"
    by simp
  from f processDNSQuery_local [OF assms(1) assms(2) f] show ?thesis by blast
qed

text \<open>With the empty key in the table, the query for \<^verbatim>\<open>other.org\<close> is answered with the
  address of the empty key and nothing is sent upstream.\<close>

theorem empty_key_matches_every_query_witness:
  "Unpack upstreamJunk otherQuery = Inr otherMsg \<and> Question otherMsg \<noteq> [] \<and>
   ([], ''10.0.0.9'') \<in> set (Domains emptyKeyConfig) \<and>
   (\<exists>ip. findValueByKeyContains (unicodeLower upstreamJunk) (Domains emptyKeyConfig)
            (Name (Question otherMsg ! 0)) = (ip, True) \<and>
         processDNSQuery upstreamJunk emptyKeyConfig otherQuery =
           ((case NewRR upstreamJunk (Name (Question otherMsg ! 0) @ '' A '' @ ip) of
               Inl err \<Rightarrow> Inl err
             | Inr rr \<Rightarrow> Pack upstreamJunk (otherMsg\<lparr>Answer := Answer otherMsg @ [rr]\<rparr>)), [])) \<and>
   findValueByKeyContains (unicodeLower upstreamJunk) (Domains emptyKeyConfig)
      (Name (Question otherMsg ! 0)) = (''10.0.0.9'', True) \<and>
   snd (processDNSQuery upstreamJunk emptyKeyConfig otherQuery) = []"
proof -
  have 1: "Unpack upstreamJunk otherQuery = Inr otherMsg" by code_simp
  have 2: "Question otherMsg \<noteq> []" by code_simp
  have 3: "([], ''10.0.0.9'') \<in> set (Domains emptyKeyConfig)"
    by (simp add: emptyKeyConfig_def)
  have 4: "findValueByKeyContains (unicodeLower upstreamJunk) (Domains emptyKeyConfig)
      (Name (Question otherMsg ! 0)) = (''10.0.0.9'', True)" by code_simp
  have 5: "snd (processDNSQuery upstreamJunk emptyKeyConfig otherQuery) = []" by code_simp
  from 1 2 3 4 5 empty_key_matches_every_query [OF 1 2 3] show ?thesis by blast
qed

text \<open>
  The claim as written has every such query answered. With the empty key mapped to an
  IPv6 literal, the query for \<^verbatim>\<open>other.org\<close> matches, is not forwarded, and fails on
  the record that cannot be made.
\<close>

theorem empty_key_ipv6_not_answered:
  "([], ''2001:db8::9'') \<in> set (Domains emptyKeyIPv6Config) \<and>
   Unpack upstreamJunk otherQuery = Inr otherMsg \<and> Question otherMsg \<noteq> [] \<and>
   findValueByKeyContains (unicodeLower upstreamJunk) (Domains emptyKeyIPv6Config)
      (Name (Question otherMsg ! 0)) = (''2001:db8::9'', True) \<and>
   processDNSQuery upstreamJunk emptyKeyIPv6Config otherQuery = (Inl (Err ''dns: bad A A''), [])"
proof -
  have 1: "([], ''2001:db8::9'') \<in> set (Domains emptyKeyIPv6Config)"
    by (simp add: emptyKeyIPv6Config_def)
  have 2: "Unpack upstreamJunk otherQuery = Inr otherMsg" by code_simp
  have 3: "Question otherMsg \<noteq> []" by code_simp
  have 4: "findValueByKeyContains (unicodeLower upstreamJunk) (Domains emptyKeyIPv6Config)
      (Name (Question otherMsg ! 0)) = (''2001:db8::9'', True)" by code_simp
  have 5: "processDNSQuery upstreamJunk emptyKeyIPv6Config otherQuery
             = (Inl (Err ''dns: bad A A''), [])" by code_simp
  from 1 2 3 4 5 show ?thesis by (intro conjI)
qed

text \<open>The header bytes of the plain codec, and of a message whose answers changed.\<close>

lemma put16_be16: "put16 (be16 hi lo) = [hi, lo]"
proof -
  have "(ucast (drop_bit 8 (push_bit 8 (ucast hi :: 16 word) OR ucast lo)) :: 8 word) = hi"
    by (rule bit_word_eqI) (auto simp: bit_simps dest: bit_imp_le_length)
  moreover have "(ucast (push_bit 8 (ucast hi :: 16 word) OR ucast lo) :: 8 word) = lo"
    by (rule bit_word_eqI) (auto simp: bit_simps)
  ultimately show ?thesis by (simp add: put16_def be16_def)
qed

lemma bits_rebuilt:
  fixes bits :: "16 word"
  shows "(push_bit 11 (word_of_int (uint (drop_bit 11 bits AND 15)))
      OR (word_of_int (uint (bits AND 15)) AND 15)
      OR (if bit bits 15 then push_bit 15 1 else 0)
      OR (if bit bits 10 then push_bit 10 1 else 0)
      OR (if bit bits 9 then push_bit 9 1 else 0)
      OR (if bit bits 8 then push_bit 8 1 else 0)
      OR (if bit bits 7 then push_bit 7 1 else 0)
      OR (if bit bits 6 then push_bit 6 1 else 0)
      OR (if bit bits 5 then push_bit 5 1 else 0)
      OR (if bit bits 4 then push_bit 4 1 else 0)) = bits"
proof (rule bit_word_eqI)
  fix k :: nat
  assume "k < LENGTH(16)"
  then have "k < 16" by simp
  then have "k \<in> {15, 14, 13, 12, 11, 10, 9, 8, 7, 6, 5, 4, 3, 2, 1, 0}"
    by (simp only: insert_iff empty_iff) presburger
  then show "bit (push_bit 11 (word_of_int (uint (drop_bit 11 bits AND 15)) :: 16 word)
      OR (word_of_int (uint (bits AND 15)) AND 15)
      OR (if bit bits 15 then push_bit 15 1 else 0)
      OR (if bit bits 10 then push_bit 10 1 else 0)
      OR (if bit bits 9 then push_bit 9 1 else 0)
      OR (if bit bits 8 then push_bit 8 1 else 0)
      OR (if bit bits 7 then push_bit 7 1 else 0)
      OR (if bit bits 6 then push_bit 6 1 else 0)
      OR (if bit bits 5 then push_bit 5 1 else 0)
      OR (if bit bits 4 then push_bit 4 1 else 0)) k = bit bits k"
    by (elim insertE emptyE) (simp_all add: bit_simps)
qed

lemma plainUnpack_long:
  assumes "plainUnpack bs = Inr m"
  shows "\<exists>i1 i2 f1 f2 q1 q2 a1 a2 n1 n2 x1 x2 rest.
           bs = i1 # i2 # f1 # f2 # q1 # q2 # a1 # a2 # n1 # n2 # x1 # x2 # rest"
  using assms by (auto simp: plainUnpack_def split: list.splits)

lemma plainUnpack_header:
  assumes "plainUnpack bs = Inr m"
  shows "take 4 bs = headerBytes m"
proof -
  from plainUnpack_long [OF assms] obtain i1 i2 f1 f2 q1 q2 a1 a2 n1 n2 x1 x2 rest where
    bs: "bs = i1 # i2 # f1 # f2 # q1 # q2 # a1 # a2 # n1 # n2 # x1 # x2 # rest" by blast
  define bits where "bits = be16 f1 f2"
  from assms have "plainUnpack (i1 # i2 # f1 # f2 # q1 # q2 # a1 # a2 # n1 # n2 # x1 # x2 # rest)
                     = Inr m"
    by (simp only: bs)
  then obtain qs where m: "m =
       \<lparr>Id_hdr = be16 i1 i2, Response = bit bits 15,
        Opcode = uint (drop_bit 11 bits AND 15),
        Authoritative = bit bits 10, Truncated = bit bits 9,
        RecursionDesired = bit bits 8, RecursionAvailable = bit bits 7,
        Zero = bit bits 6, AuthenticatedData = bit bits 5,
        CheckingDisabled = bit bits 4, Rcode = uint (bits AND 15),
        Compress = False, Question = qs, Answer = [], Ns = [], Extra = []\<rparr>"
    unfolding plainUnpack_def Let_def bits_def [symmetric] list.case
    by (cases "unpackQuestions (unat (be16 q1 q2)) rest")
       (simp_all only: if_splits option.case sum.inject sum.distinct split: if_splits, blast+)
  have i: "Id_hdr m = be16 i1 i2" by (simp only: m MsgHdr.select_convs)
  have "hdrBits m =
      (push_bit 11 (word_of_int (uint (drop_bit 11 bits AND 15)))
      OR (word_of_int (uint (bits AND 15)) AND 15)
      OR (if bit bits 15 then push_bit 15 1 else 0)
      OR (if bit bits 10 then push_bit 10 1 else 0)
      OR (if bit bits 9 then push_bit 9 1 else 0)
      OR (if bit bits 8 then push_bit 8 1 else 0)
      OR (if bit bits 7 then push_bit 7 1 else 0)
      OR (if bit bits 6 then push_bit 6 1 else 0)
      OR (if bit bits 5 then push_bit 5 1 else 0)
      OR (if bit bits 4 then push_bit 4 1 else 0))"
    by (simp only: m hdrBits_def MsgHdr.select_convs)
  then have f: "hdrBits m = be16 f1 f2" by (simp only: bits_rebuilt bits_def)
  show ?thesis by (simp add: bs headerBytes_def i f put16_be16)
qed

lemma length_put16: "length (put16 v) = 2"
  by (simp add: put16_def)

lemma plainPack_header:
  assumes "plainPack m = Inr b"
  shows "take 4 b = headerBytes m"
proof -
  have l: "length (headerBytes m) = 4" by (simp add: headerBytes_def length_put16)
  from assms obtain r where "b = headerBytes m @ r"
    by (auto simp: plainPack_def split: if_splits option.splits)
  with l show ?thesis by simp
qed

lemma header_of_answer: "headerBytes (m\<lparr>Answer := a\<rparr>) = headerBytes m"
  by (simp add: headerBytes_def hdrBits_def)

lemma plainEnv_header_codec:
  "\<forall>q m. Unpack (plainEnv up) q = Inr m \<longrightarrow> take 4 q = headerBytes m"
  "\<forall>m b. Pack (plainEnv up) m = Inr b \<longrightarrow> take 4 b = headerBytes m"
  by (simp_all add: plainEnv_def plainUnpack_header plainPack_header)

text \<open>
  C10. When a locally overridden query gets a response, the response is what the
  library packs from the unpacked query message with exactly one record, the one made
  from \<^verbatim>\<open><name> A <address>\<close>, appended to its answer section; ID, flags, opcode,
  response code, questions, authority and additional sections of that message are
  those that \<^verbatim>\<open>Unpack\<close> read. With a library that reads and writes the ID and the
  flags word in the first four bytes as the wire format lays them out, the first four
  bytes of the response are the first four bytes of the query: the ID and every
  flag, the query/response flag included, come back unchanged.
\<close>

theorem override_keeps_query_header:
  assumes "Unpack E query = Inr msg" and "Question msg \<noteq> []"
    and "findValueByKeyContains (unicodeLower E) (Domains config) (Name (Question msg ! 0))
           = (ip, True)"
    and "fst (processDNSQuery E config query) = Inr resp"
    and "\<forall>q m. Unpack E q = Inr m \<longrightarrow> take 4 q = headerBytes m"
    and "\<forall>m b. Pack E m = Inr b \<longrightarrow> take 4 b = headerBytes m"
  shows "take 4 resp = take 4 query \<and>
         take 4 resp = put16 (Id_hdr msg) @ put16 (hdrBits msg) \<and>
         (\<exists>rr packed.
           NewRR E (Name (Question msg ! 0) @ '' A '' @ ip) = Inr rr \<and>
           Pack E packed = Inr resp \<and>
           Answer packed = Answer msg @ [rr] \<and>
           Id_hdr packed = Id_hdr msg \<and> Response packed = Response msg \<and>
           Opcode packed = Opcode msg \<and> Authoritative packed = Authoritative msg \<and>
           Truncated packed = Truncated msg \<and>
           RecursionDesired packed = RecursionDesired msg \<and>
           RecursionAvailable packed = RecursionAvailable msg \<and> Zero packed = Zero msg \<and>
           AuthenticatedData packed = AuthenticatedData msg \<and>
           CheckingDisabled packed = CheckingDisabled msg \<and> Rcode packed = Rcode msg \<and>
           Compress packed = Compress msg \<and> Question packed = Question msg \<and>
           Ns packed = Ns msg \<and> Extra packed = Extra msg)"
proof -
  from processDNSQuery_local [OF assms(1) assms(2) assms(3)] assms(4)
  have r: "(case NewRR E (Name (Question msg ! 0) @ '' A '' @ ip) of
              Inl err \<Rightarrow> Inl err
            | Inr rr \<Rightarrow> Pack E (msg\<lparr>Answer := Answer msg @ [rr]\<rparr>)) = Inr resp"
    by simp
  then obtain rr where rr: "NewRR E (Name (Question msg ! 0) @ '' A '' @ ip) = Inr rr"
    by (cases "NewRR E (Name (Question msg ! 0) @ '' A '' @ ip)") auto
  with r have p: "Pack E (msg\<lparr>Answer := Answer msg @ [rr]\<rparr>) = Inr resp" by simp
  from assms(6) p have "take 4 resp = headerBytes (msg\<lparr>Answer := Answer msg @ [rr]\<rparr>)"
    by blast
  then have h: "take 4 resp = headerBytes msg" by (simp only: header_of_answer)
  from assms(5) assms(1) have q: "take 4 query = headerBytes msg" by blast
  from h q have 1: "take 4 resp = take 4 query" by simp
  from h have 2: "take 4 resp = put16 (Id_hdr msg) @ put16 (hdrBits msg)"
    by (simp only: headerBytes_def)
  from rr p have 3: "\<exists>rr packed.
           NewRR E (Name (Question msg ! 0) @ '' A '' @ ip) = Inr rr \<and>
           Pack E packed = Inr resp \<and>
           Answer packed = Answer msg @ [rr] \<and>
           Id_hdr packed = Id_hdr msg \<and> Response packed = Response msg \<and>
           Opcode packed = Opcode msg \<and> Authoritative packed = Authoritative msg \<and>
           Truncated packed = Truncated msg \<and>
           RecursionDesired packed = RecursionDesired msg \<and>
           RecursionAvailable packed = RecursionAvailable msg \<and> Zero packed = Zero msg \<and>
           AuthenticatedData packed = AuthenticatedData msg \<and>
           CheckingDisabled packed = CheckingDisabled msg \<and> Rcode packed = Rcode msg \<and>
           Compress packed = Compress msg \<and> Question packed = Question msg \<and>
           Ns packed = Ns msg \<and> Extra packed = Extra msg"
    by (intro exI [of _ rr] exI [of _ "msg\<lparr>Answer := Answer msg @ [rr]\<rparr>"]) simp
  from 1 2 3 show ?thesis by (intro conjI)
qed

text \<open>The plain codec is such a library (\<open>plainEnv_header_codec\<close>). In the example
  the answer starts with \<^verbatim>\<open>ab cd 01 00\<close>, as the query does: it still carries the
  flag of a query.\<close>

theorem override_keeps_query_header_witness:
  "Unpack upstreamDown fooQuery = Inr fooMsg \<and> Question fooMsg \<noteq> [] \<and>
   findValueByKeyContains (unicodeLower upstreamDown) (Domains exampleConfig)
     (Name (Question fooMsg ! 0)) = (''10.0.0.5'', True) \<and>
   fst (processDNSQuery upstreamDown exampleConfig fooQuery) = Inr fooAnswer \<and>
   take 4 fooAnswer = take 4 fooQuery \<and>
   take 4 fooAnswer = put16 (Id_hdr fooMsg) @ put16 (hdrBits fooMsg) \<and>
   take 4 fooAnswer = [0xAB, 0xCD, 0x01, 0x00] \<and> \<not> Response fooMsg"
proof -
  have 1: "Unpack upstreamDown fooQuery = Inr fooMsg" by code_simp
  have 2: "Question fooMsg \<noteq> []" by code_simp
  have 3: "findValueByKeyContains (unicodeLower upstreamDown) (Domains exampleConfig)
     (Name (Question fooMsg ! 0)) = (''10.0.0.5'', True)" by code_simp
  have 4: "fst (processDNSQuery upstreamDown exampleConfig fooQuery) = Inr fooAnswer"
    by (simp add: resolve_foo)
  have 5: "\<forall>q m. Unpack upstreamDown q = Inr m \<longrightarrow> take 4 q = headerBytes m"
    unfolding upstreamDown_def by (rule plainEnv_header_codec(1))
  have 6: "\<forall>m b. Pack upstreamDown m = Inr b \<longrightarrow> take 4 b = headerBytes m"
    unfolding upstreamDown_def by (rule plainEnv_header_codec(2))
  have 7: "take 4 fooAnswer = [0xAB, 0xCD, 0x01, 0x00]" by code_simp
  have 8: "\<not> Response fooMsg" by code_simp
  note t = override_keeps_query_header [OF 1 2 3 4 5 6]
  from t have a: "take 4 fooAnswer = take 4 fooQuery" by (rule conjunct1)
  from t have b: "take 4 fooAnswer = put16 (Id_hdr fooMsg) @ put16 (hdrBits fooMsg)"
    by (elim conjE)
  from 1 2 3 4 a b 7 8 show ?thesis by (intro conjI)
qed

section \<open>The resolver: forwarding upstream\<close>

text \<open>
  C6. When the query unpacks with at least one question and the name of the first
  question contains no override key, the resolver makes exactly one upstream call, an
  HTTPS POST of the query bytes as they came to \<^verbatim>\<open>https://1.1.1.1/dns-query\<close> with
  content type \<^verbatim>\<open>application/dns-message\<close>, and its result is the outcome of that
  call: the body bytes as read, or the error of the call or of reading the body.
\<close>

theorem no_override_forwards_upstream:
  assumes "Unpack E query = Inr msg" and "Question msg \<noteq> []"
    and "list_all (\<lambda>(k, v). \<not> Contains (ToLower (unicodeLower E) (Name (Question msg ! 0)))
                                    (ToLower (unicodeLower E) k)) (Domains config)"
  shows "processDNSQuery E config query =
           ((case Post E ''https://1.1.1.1/dns-query'' ''application/dns-message'' query of
               Inl err \<Rightarrow> Inl err
             | Inr body \<Rightarrow> body),
            [(''https://1.1.1.1/dns-query'', ''application/dns-message'', query)])"
  using processDNSQuery_upstream [OF assms(1) assms(2) find_none [OF assms(3)]] .

text \<open>The query for \<^verbatim>\<open>other.org\<close>: an upstream body that is not a DNS message comes
  back as it is, and an upstream that cannot be reached fails the query after one call.\<close>

theorem no_override_forwards_upstream_witness:
  "Unpack upstreamJunk otherQuery = Inr otherMsg \<and> Question otherMsg \<noteq> [] \<and>
   list_all (\<lambda>(k, v). \<not> Contains (ToLower (unicodeLower upstreamJunk) (Name (Question otherMsg ! 0)))
                               (ToLower (unicodeLower upstreamJunk) k)) (Domains exampleConfig) \<and>
   processDNSQuery upstreamJunk exampleConfig otherQuery =
     ((case Post upstreamJunk ''https://1.1.1.1/dns-query'' ''application/dns-message'' otherQuery of
         Inl err \<Rightarrow> Inl err
       | Inr body \<Rightarrow> body),
      [(''https://1.1.1.1/dns-query'', ''application/dns-message'', otherQuery)]) \<and>
   processDNSQuery upstreamJunk exampleConfig otherQuery =
     (Inr [0xDE, 0xAD, 0xBE, 0xEF],
      [(''https://1.1.1.1/dns-query'', ''application/dns-message'', otherQuery)]) \<and>
   processDNSQuery upstreamDown exampleConfig otherQuery =
     (Inl (Err ''dial tcp 1.1.1.1:443: connect: network is unreachable''),
      [(''https://1.1.1.1/dns-query'', ''application/dns-message'', otherQuery)])"
proof -
  have 1: "Unpack upstreamJunk otherQuery = Inr otherMsg" by code_simp
  have 2: "Question otherMsg \<noteq> []" by code_simp
  have 3: "list_all (\<lambda>(k, v). \<not> Contains (ToLower (unicodeLower upstreamJunk) (Name (Question otherMsg ! 0)))
                               (ToLower (unicodeLower upstreamJunk) k)) (Domains exampleConfig)"
    by code_simp
  have 4: "Unpack upstreamDown otherQuery = Inr otherMsg" by code_simp
  have 5: "list_all (\<lambda>(k, v). \<not> Contains (ToLower (unicodeLower upstreamDown) (Name (Question otherMsg ! 0)))
                               (ToLower (unicodeLower upstreamDown) k)) (Domains exampleConfig)"
    by code_simp
  have 6: "Post upstreamJunk ''https://1.1.1.1/dns-query'' ''application/dns-message'' otherQuery
             = Inr (Inr [0xDE, 0xAD, 0xBE, 0xEF])"
    by (simp add: upstreamJunk_def plainEnv_def)
  have 7: "Post upstreamDown ''https://1.1.1.1/dns-query'' ''application/dns-message'' otherQuery
             = Inl (Err ''dial tcp 1.1.1.1:443: connect: network is unreachable'')"
    by (simp add: upstreamDown_def plainEnv_def)
  from no_override_forwards_upstream [OF 1 2 3] no_override_forwards_upstream [OF 4 2 5]
    1 2 3 6 7
  show ?thesis by simp
qed

section \<open>The DoH front-end: what the client receives\<close>

lemma http_Error_fresh:
  assumes "rwStatus w = None" and "rwBody w = []"
  shows "rwStatus (http_Error w msg code) = Some code"
    and "rwBody (http_Error w msg code) = bytesOf msg @ [10]"
    and "rwHeader (http_Error w msg code) ''Content-Type'' = Some ''text/plain; charset=utf-8''"
  using assms
  by (simp_all add: http_Error_def rw_Write_def WriteHeader_def header_Set_def header_Del_def
        bytesOf_def Let_def)

lemma rw_Write_fresh:
  assumes "rwStatus w = None" and "rwBody w = []"
  shows "rwStatus (rw_Write (header_Set w k v) p) = Some 200"
    and "rwBody (rw_Write (header_Set w k v) p) = p"
    and "rwHeader (rw_Write (header_Set w k v) p) k = Some v"
  using assms by (simp_all add: rw_Write_def WriteHeader_def header_Set_def Let_def)

text \<open>
  C7. On a response that has not been written to: when the rate limiter denies the
  request, the client receives status 429 with the plain-text body
  \<^verbatim>\<open>Rate limit exceeded\<close> and a newline, and nothing is resolved; when reading the
  request body fails, status 500 with the line \<^verbatim>\<open>Failed to read request body\<close>; when
  the resolver fails, status 500 with the line \<^verbatim>\<open>Failed to pack DNS response\<close>;
  otherwise status 200, content type \<^verbatim>\<open>application/dns-message\<close> and the bytes of the
  resolver as the body.
\<close>

theorem doh_response_by_case:
  assumes "rwStatus w = None" and "rwBody w = []"
  shows "(\<not> allow \<longrightarrow>
            rwStatus (fst (handleDoHRequest E config allow reqBody w)) = Some 429 \<and>
            rwBody (fst (handleDoHRequest E config allow reqBody w))
              = bytesOf ''Rate limit exceeded'' @ [10] \<and>
            rwHeader (fst (handleDoHRequest E config allow reqBody w)) ''Content-Type''
              = Some ''text/plain; charset=utf-8'' \<and>
            snd (handleDoHRequest E config allow reqBody w) = []) \<and>
         (allow \<and> reqBody = Inl err \<longrightarrow>
            rwStatus (fst (handleDoHRequest E config allow reqBody w)) = Some 500 \<and>
            rwBody (fst (handleDoHRequest E config allow reqBody w))
              = bytesOf ''Failed to read request body'' @ [10] \<and>
            rwHeader (fst (handleDoHRequest E config allow reqBody w)) ''Content-Type''
              = Some ''text/plain; charset=utf-8'' \<and>
            snd (handleDoHRequest E config allow reqBody w) = []) \<and>
         (allow \<and> reqBody = Inr query \<and> fst (processDNSQuery E config query) = Inl err \<longrightarrow>
            rwStatus (fst (handleDoHRequest E config allow reqBody w)) = Some 500 \<and>
            rwBody (fst (handleDoHRequest E config allow reqBody w))
              = bytesOf ''Failed to pack DNS response'' @ [10] \<and>
            rwHeader (fst (handleDoHRequest E config allow reqBody w)) ''Content-Type''
              = Some ''text/plain; charset=utf-8'') \<and>
         (allow \<and> reqBody = Inr query \<and> fst (processDNSQuery E config query) = Inr resp \<longrightarrow>
            rwStatus (fst (handleDoHRequest E config allow reqBody w)) = Some 200 \<and>
            rwBody (fst (handleDoHRequest E config allow reqBody w)) = resp \<and>
            rwHeader (fst (handleDoHRequest E config allow reqBody w)) ''Content-Type''
              = Some ''application/dns-message'')"
proof (intro conjI impI)
  assume "\<not> allow"
  then have h: "handleDoHRequest E config allow reqBody w
                  = (http_Error w ''Rate limit exceeded'' 429, [])"
    by (simp add: handleDoHRequest_def StatusTooManyRequests_def)
  show "rwStatus (fst (handleDoHRequest E config allow reqBody w)) = Some 429"
    by (simp only: h fst_conv http_Error_fresh(1) [OF assms])
  show "rwBody (fst (handleDoHRequest E config allow reqBody w))
          = bytesOf ''Rate limit exceeded'' @ [10]"
    by (simp only: h fst_conv http_Error_fresh(2) [OF assms])
  show "rwHeader (fst (handleDoHRequest E config allow reqBody w)) ''Content-Type''
          = Some ''text/plain; charset=utf-8''"
    by (simp only: h fst_conv http_Error_fresh(3) [OF assms])
  show "snd (handleDoHRequest E config allow reqBody w) = []"
    by (simp only: h snd_conv)
next
  assume "allow \<and> reqBody = Inl err"
  then have h: "handleDoHRequest E config allow reqBody w
                  = (http_Error w ''Failed to read request body'' 500, [])"
    by (simp add: handleDoHRequest_def StatusInternalServerError_def)
  show "rwStatus (fst (handleDoHRequest E config allow reqBody w)) = Some 500"
    by (simp only: h fst_conv http_Error_fresh(1) [OF assms])
  show "rwBody (fst (handleDoHRequest E config allow reqBody w))
          = bytesOf ''Failed to read request body'' @ [10]"
    by (simp only: h fst_conv http_Error_fresh(2) [OF assms])
  show "rwHeader (fst (handleDoHRequest E config allow reqBody w)) ''Content-Type''
          = Some ''text/plain; charset=utf-8''"
    by (simp only: h fst_conv http_Error_fresh(3) [OF assms])
  show "snd (handleDoHRequest E config allow reqBody w) = []"
    by (simp only: h snd_conv)
next
  assume a: "allow \<and> reqBody = Inr query \<and> fst (processDNSQuery E config query) = Inl err"
  then obtain calls where "processDNSQuery E config query = (Inl err, calls)"
    by (cases "processDNSQuery E config query") auto
  with a have h: "handleDoHRequest E config allow reqBody w
                  = (http_Error w ''Failed to pack DNS response'' 500, calls)"
    by (simp add: handleDoHRequest_def StatusInternalServerError_def)
  show "rwStatus (fst (handleDoHRequest E config allow reqBody w)) = Some 500"
    by (simp only: h fst_conv http_Error_fresh(1) [OF assms])
  show "rwBody (fst (handleDoHRequest E config allow reqBody w))
          = bytesOf ''Failed to pack DNS response'' @ [10]"
    by (simp only: h fst_conv http_Error_fresh(2) [OF assms])
  show "rwHeader (fst (handleDoHRequest E config allow reqBody w)) ''Content-Type''
          = Some ''text/plain; charset=utf-8''"
    by (simp only: h fst_conv http_Error_fresh(3) [OF assms])
next
  assume a: "allow \<and> reqBody = Inr query \<and> fst (processDNSQuery E config query) = Inr resp"
  then obtain calls where "processDNSQuery E config query = (Inr resp, calls)"
    by (cases "processDNSQuery E config query") auto
  with a have h: "handleDoHRequest E config allow reqBody w
        = (rw_Write (header_Set w ''Content-Type'' ''application/dns-message'') resp, calls)"
    by (simp add: handleDoHRequest_def)
  show "rwStatus (fst (handleDoHRequest E config allow reqBody w)) = Some 200"
    by (simp only: h fst_conv rw_Write_fresh(1) [OF assms])
  show "rwBody (fst (handleDoHRequest E config allow reqBody w)) = resp"
    by (simp only: h fst_conv rw_Write_fresh(2) [OF assms])
  show "rwHeader (fst (handleDoHRequest E config allow reqBody w)) ''Content-Type''
          = Some ''application/dns-message''"
    by (simp only: h fst_conv rw_Write_fresh(3) [OF assms])
qed

lemma fresh_newResponse: "rwStatus newResponse = None" "rwBody newResponse = []"
  by (simp_all add: newResponse_def)

lemma resolve_other_down:
  "fst (processDNSQuery upstreamDown exampleConfig otherQuery)
     = Inl (Err ''dial tcp 1.1.1.1:443: connect: network is unreachable'')"
  by (simp add: upstreamDown_def processDNSQuery_other)

text \<open>The four cases on concrete requests: a denied request, a request whose body
  cannot be read, a query for \<^verbatim>\<open>other.org\<close> with the upstream out of reach, and the
  query for \<^verbatim>\<open>foo.example.com\<close>.\<close>

theorem doh_response_by_case_witness:
  "rwStatus newResponse = None \<and> rwBody newResponse = [] \<and>
   rwStatus (fst (handleDoHRequest upstreamDown exampleConfig False (Inr fooQuery) newResponse))
     = Some 429 \<and>
   rwBody (fst (handleDoHRequest upstreamDown exampleConfig False (Inr fooQuery) newResponse))
     = bytesOf ''Rate limit exceeded'' @ [10] \<and>
   snd (handleDoHRequest upstreamDown exampleConfig False (Inr fooQuery) newResponse) = [] \<and>
   rwStatus (fst (handleDoHRequest upstreamDown exampleConfig True (Inl ErrUnexpectedEOF) newResponse))
     = Some 500 \<and>
   rwBody (fst (handleDoHRequest upstreamDown exampleConfig True (Inl ErrUnexpectedEOF) newResponse))
     = bytesOf ''Failed to read request body'' @ [10] \<and>
   fst (processDNSQuery upstreamDown exampleConfig otherQuery)
     = Inl (Err ''dial tcp 1.1.1.1:443: connect: network is unreachable'') \<and>
   rwStatus (fst (handleDoHRequest upstreamDown exampleConfig True (Inr otherQuery) newResponse))
     = Some 500 \<and>
   rwBody (fst (handleDoHRequest upstreamDown exampleConfig True (Inr otherQuery) newResponse))
     = bytesOf ''Failed to pack DNS response'' @ [10] \<and>
   fst (processDNSQuery upstreamDown exampleConfig fooQuery) = Inr fooAnswer \<and>
   rwStatus (fst (handleDoHRequest upstreamDown exampleConfig True (Inr fooQuery) newResponse))
     = Some 200 \<and>
   rwBody (fst (handleDoHRequest upstreamDown exampleConfig True (Inr fooQuery) newResponse))
     = fooAnswer \<and>
   rwHeader (fst (handleDoHRequest upstreamDown exampleConfig True (Inr fooQuery) newResponse))
     ''Content-Type'' = Some ''application/dns-message''"
proof -
  have 1: "fst (processDNSQuery upstreamDown exampleConfig otherQuery)
     = Inl (Err ''dial tcp 1.1.1.1:443: connect: network is unreachable'')"
    by (rule resolve_other_down)
  have 2: "fst (processDNSQuery upstreamDown exampleConfig fooQuery) = Inr fooAnswer"
    by (simp add: resolve_foo)
  note t = doh_response_by_case [OF fresh_newResponse, where E = upstreamDown
             and config = exampleConfig]
  from t [where allow = False and reqBody = "Inr fooQuery"]
       t [where allow = True and reqBody = "Inl ErrUnexpectedEOF" and err = ErrUnexpectedEOF]
       t [where allow = True and reqBody = "Inr otherQuery" and query = otherQuery
            and err = "Err ''dial tcp 1.1.1.1:443: connect: network is unreachable''"]
       t [where allow = True and reqBody = "Inr fooQuery" and query = fooQuery
            and resp = fooAnswer]
       1 2 fresh_newResponse
  show ?thesis by simp
qed

text \<open>
  The claim as written has the denied request, and the failed one, answered with no
  body. \<^verbatim>\<open>http.Error\<close> is called with a message, and the message is the body: the denied
  request receives the 20 bytes of \<^verbatim>\<open>Rate limit exceeded\<close> and a newline.
\<close>

theorem doh_denied_has_body:
  "rwStatus (fst (handleDoHRequest upstreamDown exampleConfig False (Inr fooQuery) newResponse))
     = Some 429 \<and>
   rwBody (fst (handleDoHRequest upstreamDown exampleConfig False (Inr fooQuery) newResponse))
     = bytesOf ''Rate limit exceeded'' @ [10] \<and>
   length (rwBody (fst (handleDoHRequest upstreamDown exampleConfig False (Inr fooQuery) newResponse)))
     = 20 \<and>
   rwBody (fst (handleDoHRequest upstreamDown exampleConfig False (Inr fooQuery) newResponse))
     \<noteq> []"
proof -
  have h: "handleDoHRequest upstreamDown exampleConfig False (Inr fooQuery) newResponse
             = (http_Error newResponse ''Rate limit exceeded'' 429, [])"
    by (simp add: handleDoHRequest_def StatusTooManyRequests_def)
  show ?thesis
    by (simp add: h http_Error_fresh [OF fresh_newResponse] bytesOf_def)
qed
section \<open>The DoT front-end: framing\<close>

lemma PutUint16_fresh: "PutUint16 (replicate 2 0) v = [ucast (drop_bit 8 v), ucast v]"
  by (simp add: PutUint16_def numeral_2_eq_2)

lemma Uint16_PutUint16: "Uint16 (PutUint16 (replicate 2 0) v) = v"
proof -
  note PutUint16_fresh [of v]
  moreover have "(ucast (ucast v :: 8 word) :: 16 word)
                   OR push_bit 8 (ucast (ucast (drop_bit 8 v) :: 8 word)) = v"
    by (rule bit_word_eqI) (auto simp: bit_simps)
  ultimately show ?thesis by (simp add: Uint16_def)
qed

lemma length_PutUint16: "length (PutUint16 (replicate 2 0) v) = 2"
  by (simp add: PutUint16_def)

lemma unat_length_16: "n \<le> 65535 \<Longrightarrow> unat (word_of_nat n :: 16 word) = n"
  by (simp add: unat_of_nat)

lemma ReadFull_keeps_writer:
  "outgoing (snd (ReadFull c n)) = outgoing c"
  "wcap (snd (ReadFull c n)) = wcap c"
  "wclosed (snd (ReadFull c n)) = wclosed c"
  "isClosed (snd (ReadFull c n)) = isClosed c"
  by (simp_all add: ReadFull_def)

lemma conn_Write_closed:
  "isClosed c \<or> wclosed c \<Longrightarrow>
   conn_Write c p = (c, Some (Err ''use of closed network connection''))"
  by (simp add: conn_Write_def)

lemma conn_Write_unbounded:
  "\<not> (isClosed c \<or> wclosed c) \<Longrightarrow> wcap c = None \<Longrightarrow>
   conn_Write c p = (c\<lparr>outgoing := outgoing c @ p\<rparr>, None)"
  by (simp add: conn_Write_def)

lemma conn_Write_fits:
  "\<not> (isClosed c \<or> wclosed c) \<Longrightarrow> wcap c = Some k \<Longrightarrow> length p \<le> k \<Longrightarrow>
   conn_Write c p = (c\<lparr>outgoing := outgoing c @ p, wcap := Some (k - length p)\<rparr>, None)"
  by (simp add: conn_Write_def)

lemma conn_Write_short:
  "\<not> (isClosed c \<or> wclosed c) \<Longrightarrow> wcap c = Some k \<Longrightarrow> \<not> length p \<le> k \<Longrightarrow>
   conn_Write c p = (c\<lparr>outgoing := outgoing c @ take k p, wcap := Some 0\<rparr>,
                     Some (Err ''write: broken pipe''))"
  by (simp add: conn_Write_def)

lemma conn_Write_prefix:
  "\<exists>q. outgoing (fst (conn_Write c p)) = outgoing c @ q \<and> prefix q p \<and>
       (snd (conn_Write c p) = None \<longrightarrow> q = p)"
proof -
  consider "isClosed c \<or> wclosed c"
    | "\<not> (isClosed c \<or> wclosed c)" "wcap c = None"
    | k where "\<not> (isClosed c \<or> wclosed c)" "wcap c = Some k" "length p \<le> k"
    | k where "\<not> (isClosed c \<or> wclosed c)" "wcap c = Some k" "\<not> length p \<le> k"
    by (cases "wcap c") auto
  then show ?thesis
  proof cases
    case 1
    show ?thesis by (rule exI [of _ "[]"]) (simp add: conn_Write_closed [OF 1])
  next
    case 2
    show ?thesis by (rule exI [of _ p]) (simp add: conn_Write_unbounded [OF 2])
  next
    case 3
    show ?thesis by (rule exI [of _ p]) (simp add: conn_Write_fits [OF 3])
  next
    case 4
    show ?thesis
      by (rule exI [of _ "take k p"]) (simp add: conn_Write_short [OF 4] take_is_prefix)
  qed
qed

lemma conn_Write_open:
  assumes "wcap c = None" and "\<not> wclosed c" and "\<not> isClosed c"
  shows "conn_Write c p = (c\<lparr>outgoing := outgoing c @ p\<rparr>, None)"
  using assms by (simp add: conn_Write_def)

lemma outgoing_conn_Close: "outgoing (conn_Close c) = outgoing c"
  by (simp add: conn_Close_def)

text \<open>What a DoT exchange writes once the resolver has produced a response.\<close>

lemma dot_written:
  assumes "allow" and "ReadFull c 2 = (Inr lengthBuf, c1)"
    and "ReadFull c1 (unat (Uint16 lengthBuf)) = (Inr buffer, c2)"
    and "processDNSQuery E config buffer = (Inr response, calls)"
  shows "\<exists>written.
           outgoing (fst (handleDoTConnection E config allow c)) = outgoing c @ written \<and>
           prefix written
             (PutUint16 (replicate 2 0) (word_of_nat (length response)) @ response) \<and>
           (wcap c = None \<and> \<not> wclosed c \<and> \<not> isClosed c \<longrightarrow>
              written = PutUint16 (replicate 2 0) (word_of_nat (length response)) @ response)"
proof -
  define hdr where "hdr = PutUint16 (replicate 2 0) (word_of_nat (length response) :: 16 word)"
  have c1: "c1 = snd (ReadFull c 2)" using assms(2) by simp
  have c2: "c2 = snd (ReadFull c1 (unat (Uint16 lengthBuf)))" using assms(3) by simp
  have o2: "outgoing c2 = outgoing c" "wcap c2 = wcap c" "wclosed c2 = wclosed c"
    "isClosed c2 = isClosed c"
    by (simp_all add: c1 c2 ReadFull_keeps_writer)
  obtain c3 e3 where w3: "conn_Write c2 hdr = (c3, e3)" by (cases "conn_Write c2 hdr")
  from conn_Write_prefix [of c2 hdr] w3 obtain q1 where
    q1: "outgoing c3 = outgoing c2 @ q1" "prefix q1 hdr" "e3 = None \<longrightarrow> q1 = hdr"
    by auto
  show ?thesis
  proof (cases e3)
    case (Some err)
    with assms w3 have r: "handleDoTConnection E config allow c = (conn_Close c3, calls)"
      by (simp add: handleDoTConnection_def hdr_def Let_def)
    have nofail: "\<not> (wcap c = None \<and> \<not> wclosed c \<and> \<not> isClosed c)"
    proof
      assume "wcap c = None \<and> \<not> wclosed c \<and> \<not> isClosed c"
      with o2 have "conn_Write c2 hdr = (c2\<lparr>outgoing := outgoing c2 @ hdr\<rparr>, None)"
        by (simp add: conn_Write_open)
      with w3 Some show False by simp
    qed
    from q1(2) have p: "prefix q1 (hdr @ response)" by (rule prefix_prefix)
    from nofail have n: "wcap c = None \<and> \<not> wclosed c \<and> \<not> isClosed c \<longrightarrow> q1 = hdr @ response"
      by blast
    have o: "outgoing (fst (handleDoTConnection E config allow c)) = outgoing c @ q1"
      by (simp add: r outgoing_conn_Close q1(1) o2(1))
    from o p n show ?thesis
      unfolding hdr_def [symmetric] by (intro exI [of _ q1] conjI)
  next
    case None
    with q1 have q1h: "q1 = hdr" by simp
    obtain c4 e4 where w4: "conn_Write c3 response = (c4, e4)"
      by (cases "conn_Write c3 response")
    from conn_Write_prefix [of c3 response] w4 obtain q2 where
      q2: "outgoing c4 = outgoing c3 @ q2" "prefix q2 response" "e4 = None \<longrightarrow> q2 = response"
      by auto
    from assms w3 w4 None have r: "handleDoTConnection E config allow c = (conn_Close c4, calls)"
      by (cases e4) (simp_all add: handleDoTConnection_def hdr_def Let_def)
    have full: "wcap c = None \<and> \<not> wclosed c \<and> \<not> isClosed c \<longrightarrow> q2 = response"
    proof
      assume a: "wcap c = None \<and> \<not> wclosed c \<and> \<not> isClosed c"
      with o2 have "conn_Write c2 hdr = (c2\<lparr>outgoing := outgoing c2 @ hdr\<rparr>, None)"
        by (simp add: conn_Write_open)
      with w3 have "c3 = c2\<lparr>outgoing := outgoing c2 @ hdr\<rparr>" by simp
      with a o2 have "wcap c3 = None" "\<not> wclosed c3" "\<not> isClosed c3" by simp_all
      then have "conn_Write c3 response = (c3\<lparr>outgoing := outgoing c3 @ response\<rparr>, None)"
        by (simp add: conn_Write_open)
      with w4 q2 show "q2 = response" by simp
    qed
    from q2(2) have p: "prefix (hdr @ q2) (hdr @ response)" by simp
    from full have n: "wcap c = None \<and> \<not> wclosed c \<and> \<not> isClosed c \<longrightarrow> hdr @ q2 = hdr @ response"
      by simp
    have o: "outgoing (fst (handleDoTConnection E config allow c)) = outgoing c @ hdr @ q2"
      by (simp add: r outgoing_conn_Close q1(1) q2(1) o2(1) q1h)
    from o p n show ?thesis
      unfolding hdr_def [symmetric] by (intro exI [of _ "hdr @ q2"] conjI)
  qed
qed

text \<open>
  Within the range of the length field the frame is right: when the resolver succeeds
  with a response of length \<open>L \<le> 65535\<close>, what is written is a prefix of the frame
  made of two bytes that decode big-endian to exactly \<open>L\<close> and then the response; it
  is the whole frame when the peer accepts every write.
\<close>

lemma dot_length_prefix:
  assumes "allow" and "ReadFull c 2 = (Inr lengthBuf, c1)"
    and "ReadFull c1 (unat (Uint16 lengthBuf)) = (Inr buffer, c2)"
    and "processDNSQuery E config buffer = (Inr response, calls)"
    and "length response \<le> 65535"
  shows "\<exists>hdr written.
           length hdr = 2 \<and> unat (Uint16 hdr) = length response \<and>
           outgoing (fst (handleDoTConnection E config allow c)) = outgoing c @ written \<and>
           prefix written (hdr @ response) \<and>
           (wcap c = None \<and> \<not> wclosed c \<and> \<not> isClosed c \<longrightarrow> written = hdr @ response)"
proof -
  from dot_written [OF assms(1-4)] obtain written where
    w: "outgoing (fst (handleDoTConnection E config allow c)) = outgoing c @ written"
       "prefix written (PutUint16 (replicate 2 0) (word_of_nat (length response)) @ response)"
       "wcap c = None \<and> \<not> wclosed c \<and> \<not> isClosed c \<longrightarrow>
          written = PutUint16 (replicate 2 0) (word_of_nat (length response)) @ response"
    by blast
  have "unat (Uint16 (PutUint16 (replicate 2 0) (word_of_nat (length response))))
          = length response"
    by (simp only: Uint16_PutUint16 unat_length_16 [OF assms(5)])
  with w length_PutUint16 show ?thesis
    by (intro exI [of _ "PutUint16 (replicate 2 0) (word_of_nat (length response))"]
          exI [of _ written] conjI)
qed

lemma fresh_open: "wcap (freshConn s) = None \<and> \<not> wclosed (freshConn s) \<and> \<not> isClosed (freshConn s)"
  by (simp add: freshConn_def)

lemma outgoing_fresh: "outgoing (freshConn s) = []"
  by (simp add: freshConn_def)

lemma read_foo_frame:
  "ReadFull dotClientFoo 2 = (Inr [0, 33], freshConn fooQuery)"
  "ReadFull (freshConn fooQuery) (unat (Uint16 [0, 33])) = (Inr fooQuery, freshConn [])"
  by code_simp+

lemma read_other_frame:
  "ReadFull dotClientOther 2 = (Inr [0, 27], freshConn otherQuery)"
  "ReadFull (freshConn otherQuery) (unat (Uint16 [0, 27])) = (Inr otherQuery, freshConn [])"
  by code_simp+

lemma length_fooAnswer: "length fooAnswer = 64"
  by code_simp

lemma length_oversized: "length oversized = 65536"
  by (simp add: oversized_def)

text \<open>The framed query for \<^verbatim>\<open>foo.example.com\<close>: the 64 bytes of the answer follow the
  two bytes \<^verbatim>\<open>00 40\<close>.\<close>

lemma dot_length_prefix_example:
  "ReadFull dotClientFoo 2 = (Inr [0, 33], freshConn fooQuery) \<and>
   ReadFull (freshConn fooQuery) (unat (Uint16 [0, 33])) = (Inr fooQuery, freshConn []) \<and>
   processDNSQuery upstreamDown exampleConfig fooQuery = (Inr fooAnswer, []) \<and>
   length fooAnswer \<le> 65535 \<and>
   (\<exists>hdr written.
      length hdr = 2 \<and> unat (Uint16 hdr) = length fooAnswer \<and>
      outgoing (fst (handleDoTConnection upstreamDown exampleConfig True dotClientFoo))
        = outgoing dotClientFoo @ written \<and>
      prefix written (hdr @ fooAnswer) \<and>
      (wcap dotClientFoo = None \<and> \<not> wclosed dotClientFoo \<and> \<not> isClosed dotClientFoo
         \<longrightarrow> written = hdr @ fooAnswer)) \<and>
   outgoing (fst (handleDoTConnection upstreamDown exampleConfig True dotClientFoo))
     = [0, 64] @ fooAnswer"
proof -
  have 1: "True" by simp
  have 5: "length fooAnswer \<le> 65535" by (simp add: length_fooAnswer)
  have 6: "outgoing (fst (handleDoTConnection upstreamDown exampleConfig True dotClientFoo))
     = [0, 64] @ fooAnswer" by code_simp
  from dot_length_prefix [OF 1 read_foo_frame resolve_foo 5] read_foo_frame resolve_foo 5 6
  show ?thesis by blast
qed

text \<open>
  C4. The two bytes written before the payload are to decode to its length, and a
  payload of more than 65535 bytes is to end the connection unframed. The code writes
  \<^verbatim>\<open>uint16(len(response))\<close>, the length cut to 16 bits, with no check, against its own
  comment that it writes the length of the response followed by the response. When
  the upstream answers the forwarded query for \<^verbatim>\<open>other.org\<close> with a body of 65536
  bytes, the resolver succeeds with those bytes and the client is sent the two bytes
  \<^verbatim>\<open>00 00\<close>, which decode to 0, and then all 65536 bytes.
\<close>

theorem dot_oversized_is_framed:
  "fst (processDNSQuery upstreamOversized exampleConfig otherQuery) = Inr oversized \<and>
   length oversized = 65536 \<and>
   outgoing (fst (handleDoTConnection upstreamOversized exampleConfig True dotClientOther))
     = [0, 0] @ oversized \<and>
   unat (Uint16 [0, 0]) = 0 \<and>
   unat (Uint16 (take 2 (outgoing (fst
     (handleDoTConnection upstreamOversized exampleConfig True dotClientOther)))))
     \<noteq> length oversized"
proof -
  have 1: "True" by simp
  have 4: "processDNSQuery upstreamOversized exampleConfig otherQuery
             = (Inr oversized, [(''https://1.1.1.1/dns-query'', ''application/dns-message'', otherQuery)])"
    by (simp add: upstreamOversized_def processDNSQuery_other)
  have o: "wcap dotClientOther = None \<and> \<not> wclosed dotClientOther \<and> \<not> isClosed dotClientOther"
    by (simp add: dotClientOther_def fresh_open)
  have h: "PutUint16 (replicate 2 0) (word_of_nat (length oversized)) = [0, 0]"
    by (simp add: length_oversized PutUint16_fresh)
  from dot_written [OF 1 read_other_frame 4] obtain written where
    w1: "outgoing (fst (handleDoTConnection upstreamOversized exampleConfig True dotClientOther))
           = outgoing dotClientOther @ written"
    and w3: "wcap dotClientOther = None \<and> \<not> wclosed dotClientOther \<and> \<not> isClosed dotClientOther
               \<longrightarrow> written
                 = PutUint16 (replicate 2 0) (word_of_nat (length oversized)) @ oversized"
    by blast
  from w3 o have "written = PutUint16 (replicate 2 0) (word_of_nat (length oversized)) @ oversized"
    by (rule mp)
  then have w2: "written = [0, 0] @ oversized" by (simp only: h)
  have og: "outgoing dotClientOther = []"
    by (simp only: dotClientOther_def outgoing_fresh)
  have w': "outgoing (fst (handleDoTConnection upstreamOversized exampleConfig True dotClientOther))
          = [0, 0] @ oversized"
    by (simp only: w1 w2 og append_Nil)
  have z: "unat (Uint16 [0, 0]) = 0" by (simp add: Uint16_def)
  have t: "take 2 ([0, 0] @ oversized) = [0, 0]" by simp
  have n: "unat (Uint16 (take 2 (outgoing (fst
     (handleDoTConnection upstreamOversized exampleConfig True dotClientOther)))))
     \<noteq> length oversized"
    by (simp only: w' t z length_oversized)
  from 4 have f: "fst (processDNSQuery upstreamOversized exampleConfig otherQuery) = Inr oversized"
    by simp
  from f length_oversized w' z n show ?thesis by (intro conjI)
qed
section \<open>The sniffer: what it reads and what it leaves\<close>

lemma sameWriter_refl: "sameWriter a a"
  by (simp add: sameWriter_def)

lemma conn_Read_split:
  "fst (conn_Read c n) @ incoming (snd (snd (conn_Read c n))) = incoming c"
  "sameWriter (snd (snd (conn_Read c n))) c"
  by (simp_all add: conn_Read_def sameWriter_def)

lemma tee_Read_keeps_stream:
  "teeBuffer (snd (snd (tee_Read t n))) @ incoming (teeSource (snd (snd (tee_Read t n))))
     = teeBuffer t @ incoming (teeSource t)"
  "sameWriter (teeSource (snd (snd (tee_Read t n)))) (teeSource t)"
proof -
  obtain p err src where r: "conn_Read (teeSource t) n = (p, err, src)"
    by (cases "conn_Read (teeSource t) n")
  from conn_Read_split [of "teeSource t" n] r
  have s: "p @ incoming src = incoming (teeSource t)" "sameWriter src (teeSource t)"
    by simp_all
  from r s(1)
  show "teeBuffer (snd (snd (tee_Read t n))) @ incoming (teeSource (snd (snd (tee_Read t n))))
     = teeBuffer t @ incoming (teeSource t)"
    by (cases p) (simp_all add: tee_Read_def)
  from r s(2) show "sameWriter (teeSource (snd (snd (tee_Read t n)))) (teeSource t)"
    by (simp add: tee_Read_def)
qed

lemma doCall_keeps_stream:
  "teeBuffer (reader (doCall c call)) @ incoming (teeSource (reader (doCall c call)))
     = teeBuffer (reader c) @ incoming (teeSource (reader c))"
  "sameWriter (teeSource (reader (doCall c call))) (teeSource (reader c))"
proof -
  have rd: "reader (snd (roc_Read c n)) = snd (snd (tee_Read (reader c) n))" for n
    by (cases "tee_Read (reader c) n") (simp add: roc_Read_def)
  show "teeBuffer (reader (doCall c call)) @ incoming (teeSource (reader (doCall c call)))
     = teeBuffer (reader c) @ incoming (teeSource (reader c))"
    by (cases call)
       (simp_all add: rd tee_Read_keeps_stream roc_Write_def roc_Close_def roc_SetDeadline_def
          roc_SetReadDeadline_def roc_SetWriteDeadline_def)
  show "sameWriter (teeSource (reader (doCall c call))) (teeSource (reader c))"
    by (cases call)
       (simp_all add: rd tee_Read_keeps_stream sameWriter_refl roc_Write_def roc_Close_def
          roc_SetDeadline_def roc_SetReadDeadline_def roc_SetWriteDeadline_def)
qed

lemma calls_keep_stream:
  "teeBuffer (reader (foldl doCall c calls)) @ incoming (teeSource (reader (foldl doCall c calls)))
     = teeBuffer (reader c) @ incoming (teeSource (reader c)) \<and>
   sameWriter (teeSource (reader (foldl doCall c calls))) (teeSource (reader c))"
proof (induction calls arbitrary: c)
  case Nil
  show ?case by (simp add: sameWriter_refl)
next
  case (Cons call calls)
  from Cons.IH [of "doCall c call"] doCall_keeps_stream [of c call]
  show ?case by (simp add: sameWriter_def)
qed

text \<open>With a parsed hello the hook has run once, the counter is zero and
  \<open>readClientHello\<close> returns the hello; without one the counter stays at one.\<close>

lemma readClientHello_parsed:
  assumes "parsedHello L (incoming (teeSource t)) = Some h"
  shows "readClientHello L t =
           Some (Inr h, reader (foldl doCall \<lparr>reader = t\<rparr> (connCalls L (incoming (teeSource t)))))"
  using assms
  by (simp add: readClientHello_def Handshake_def wg_Add_def wg_Done_def wg_Wait_def Let_def)

lemma readClientHello_not_parsed:
  assumes "parsedHello L (incoming (teeSource t)) = None"
  shows "readClientHello L t = None"
  using assms
  by (simp add: readClientHello_def Handshake_def wg_Add_def wg_Done_def wg_Wait_def Let_def)

lemma peekClientHello_parsed:
  assumes "parsedHello L (incoming c) = Some h"
  shows "\<exists>peeked c1. peekClientHello L c = Some (Inr (h, peeked), c1) \<and>
           peeked @ incoming c1 = incoming c \<and> sameWriter c1 c"
proof -
  let ?t = "\<lparr>teeSource = c, teeBuffer = []\<rparr>"
  let ?t' = "reader (foldl doCall \<lparr>reader = ?t\<rparr> (connCalls L (incoming c)))"
  from assms have "readClientHello L ?t = Some (Inr h, ?t')"
    using readClientHello_parsed [of L ?t h] by simp
  then have p: "peekClientHello L c = Some (Inr (h, teeBuffer ?t'), teeSource ?t')"
    by (simp add: peekClientHello_def)
  from calls_keep_stream [of "\<lparr>reader = ?t\<rparr>" "connCalls L (incoming c)"]
  have "teeBuffer ?t' @ incoming (teeSource ?t') = incoming c" "sameWriter (teeSource ?t') c"
    by simp_all
  with p show ?thesis by blast
qed

lemma peekClientHello_not_parsed:
  assumes "parsedHello L (incoming c) = None"
  shows "peekClientHello L c = None"
  using readClientHello_not_parsed [of L "\<lparr>teeSource = c, teeBuffer = []\<rparr>"] assms
  by (simp add: peekClientHello_def)

text \<open>
  C8. The write operation of the read-only adapter returns zero bytes written and the
  closed-pipe error and leaves the adapter as it was; the three deadline setters
  return no error and leave it as it was; and whatever calls the TLS library makes on
  the adapter, the bytes written to the real client stay what they were.
\<close>

theorem readOnlyConn_never_writes:
  "roc_Write c p = ((0, Some ErrClosedPipe), c) \<and>
   ErrClosedPipe = Err ''io: read/write on closed pipe'' \<and>
   roc_SetDeadline c t = (None, c) \<and>
   roc_SetReadDeadline c t = (None, c) \<and>
   roc_SetWriteDeadline c t = (None, c) \<and>
   outgoing (teeSource (reader (foldl doCall c calls))) = outgoing (teeSource (reader c))"
proof -
  from calls_keep_stream [of c calls]
  have "outgoing (teeSource (reader (foldl doCall c calls))) = outgoing (teeSource (reader c))"
    by (simp add: sameWriter_def)
  then show ?thesis
    by (simp add: roc_Write_def roc_SetDeadline_def roc_SetReadDeadline_def
          roc_SetWriteDeadline_def ErrClosedPipe_def)
qed
section \<open>The relay towards the backend\<close>

lemma conn_Close_fields:
  "outgoing (conn_Close c) = outgoing c" "incoming (conn_Close c) = incoming c"
  by (simp_all add: conn_Close_def)

lemma CloseWrite_fields:
  "outgoing (CloseWrite c) = outgoing c" "incoming (CloseWrite c) = incoming c"
  by (simp_all add: CloseWrite_def)

lemma toBackend_open:
  assumes "wcap b = None" and "\<not> wclosed b" and "\<not> isClosed b"
  shows "outgoing (snd (toBackend peeked c b)) = outgoing b @ peeked @ incoming c"
    and "outgoing (fst (toBackend peeked c b)) = outgoing c"
proof -
  from assms have 1: "conn_Write b peeked = (b\<lparr>outgoing := outgoing b @ peeked\<rparr>, None)"
    by (rule conn_Write_open)
  let ?b1 = "b\<lparr>outgoing := outgoing b @ peeked\<rparr>"
  from assms have "wcap ?b1 = None" "\<not> wclosed ?b1" "\<not> isClosed ?b1" by simp_all
  then have 2: "conn_Write ?b1 (incoming c)
                  = (?b1\<lparr>outgoing := outgoing ?b1 @ incoming c\<rparr>, None)"
    by (rule conn_Write_open)
  from 1 2 show "outgoing (snd (toBackend peeked c b)) = outgoing b @ peeked @ incoming c"
    by (simp add: toBackend_def Copy_def Copy_buffer_def CloseWrite_def)
  from 1 2 show "outgoing (fst (toBackend peeked c b)) = outgoing c"
    by (simp add: toBackend_def Copy_def Copy_buffer_def CloseWrite_def)
qed

lemma conn_Write_after_failure:
  assumes "snd (conn_Write c p) \<noteq> None"
  shows "outgoing (fst (conn_Write (fst (conn_Write c p)) p')) = outgoing (fst (conn_Write c p))"
proof -
  consider "isClosed c \<or> wclosed c"
    | "\<not> (isClosed c \<or> wclosed c)" "wcap c = None"
    | k where "\<not> (isClosed c \<or> wclosed c)" "wcap c = Some k" "length p \<le> k"
    | k where "\<not> (isClosed c \<or> wclosed c)" "wcap c = Some k" "\<not> length p \<le> k"
    by (cases "wcap c") auto
  then show ?thesis
  proof cases
    case 1
    then show ?thesis by (simp add: conn_Write_closed)
  next
    case 2
    with assms show ?thesis by (simp add: conn_Write_unbounded)
  next
    case 3
    with assms show ?thesis by (simp add: conn_Write_fits)
  next
    case 4
    let ?c' = "c\<lparr>outgoing := outgoing c @ take k p, wcap := Some 0\<rparr>"
    from 4 have w: "conn_Write c p = (?c', Some (Err ''write: broken pipe''))"
      by (rule conn_Write_short)
    from 4(1) have n: "\<not> (isClosed ?c' \<or> wclosed ?c')" by simp
    have "outgoing (fst (conn_Write ?c' p')) = outgoing ?c'"
    proof (cases "length p' \<le> 0")
      case True
      with conn_Write_fits [OF n, of 0 p'] show ?thesis by simp
    next
      case False
      with conn_Write_short [OF n, of 0 p'] show ?thesis by simp
    qed
    with w show ?thesis by simp
  qed
qed

lemma toBackend_prefix:
  "\<exists>q. outgoing (snd (toBackend peeked c b)) = outgoing b @ q \<and>
        prefix q (peeked @ incoming c) \<and>
        (wcap b = None \<and> \<not> wclosed b \<and> \<not> isClosed b \<longrightarrow> q = peeked @ incoming c)"
proof -
  obtain b1 e1 where w1: "conn_Write b peeked = (b1, e1)" by (cases "conn_Write b peeked")
  obtain b2 e2 where w2: "conn_Write b1 (incoming c) = (b2, e2)"
    by (cases "conn_Write b1 (incoming c)")
  have tb: "outgoing (snd (toBackend peeked c b)) = outgoing b2"
    using w1 w2 by (cases e2) (simp_all add: toBackend_def Copy_def Copy_buffer_def CloseWrite_def)
  from conn_Write_prefix [of b peeked] w1 obtain q1 where
    q1: "outgoing b1 = outgoing b @ q1" "prefix q1 peeked" "e1 = None \<longrightarrow> q1 = peeked"
    by auto
  from conn_Write_prefix [of b1 "incoming c"] w2 obtain q2 where
    q2: "outgoing b2 = outgoing b1 @ q2" "prefix q2 (incoming c)"
    by auto
  have full: "wcap b = None \<and> \<not> wclosed b \<and> \<not> isClosed b \<longrightarrow>
                outgoing b2 = outgoing b @ peeked @ incoming c"
  proof
    assume "wcap b = None \<and> \<not> wclosed b \<and> \<not> isClosed b"
    then have "outgoing (snd (toBackend peeked c b)) = outgoing b @ peeked @ incoming c"
      by (intro toBackend_open(1)) simp_all
    with tb show "outgoing b2 = outgoing b @ peeked @ incoming c" by simp
  qed
  show ?thesis
  proof (cases e1)
    case None
    with q1 have "q1 = peeked" by simp
    with q1(1) q2 have o: "outgoing b2 = outgoing b @ peeked @ q2"
      and p: "prefix (peeked @ q2) (peeked @ incoming c)" by simp_all
    from full o have f: "wcap b = None \<and> \<not> wclosed b \<and> \<not> isClosed b \<longrightarrow>
        peeked @ q2 = peeked @ incoming c" by simp
    from tb o have o': "outgoing (snd (toBackend peeked c b)) = outgoing b @ peeked @ q2" by simp
    from o' p f show ?thesis by (intro exI [of _ "peeked @ q2"] conjI)
  next
    case (Some err)
    with w1 have "snd (conn_Write b peeked) \<noteq> None" by simp
    from conn_Write_after_failure [OF this, of "incoming c"] w1 w2
    have "outgoing b2 = outgoing b1" by simp
    with q1(1) have o: "outgoing b2 = outgoing b @ q1" by simp
    from q1(2) have p: "prefix q1 (peeked @ incoming c)" by (rule prefix_prefix)
    from full o have f: "wcap b = None \<and> \<not> wclosed b \<and> \<not> isClosed b \<longrightarrow>
        q1 = peeked @ incoming c" by simp
    from tb o have o': "outgoing (snd (toBackend peeked c b)) = outgoing b @ q1" by simp
    from o' p f show ?thesis by (intro exI [of _ q1] conjI)
  qed
qed

lemma Copy_keeps_source_writer: "outgoing (snd (Copy dst src)) = outgoing src"
  by (cases "conn_Write dst (incoming src)") (auto simp: Copy_def split: option.splits)

lemma toClient_keeps_backend_writer: "outgoing (snd (toClient c b)) = outgoing b"
proof -
  obtain c' b' where r: "Copy c b = (c', b')" by (cases "Copy c b")
  with Copy_keeps_source_writer [of c b] have "outgoing b' = outgoing b" by simp
  with r show ?thesis by (simp add: toClient_def)
qed

text \<open>Running the two directions of the relay in either order gives the same two
  connections.\<close>

lemma relay_order_irrelevant:
  "(case toBackend p c b of (c1, b1) \<Rightarrow> toClient c1 b1)
     = (case toClient c b of (c1, b1) \<Rightarrow> toBackend p c1 b1)"
  by (auto simp: toBackend_def toClient_def Copy_def Copy_buffer_def conn_Write_def CloseWrite_def
        split: option.splits prod.splits if_splits)

text \<open>The path of \<open>handleConnection\<close> on which a hello was sniffed and the dial succeeded.\<close>

lemma handleConnection_relayed:
  assumes "setDeadline W = None" and "clearDeadline W = None"
    and "peekClientHello L clientConn = Some (Inr (hello, peeked), c1)"
    and "DialTimeout W (JoinHostPort (ToLower u (ServerName hello))
           (if ToLower u (ServerName hello) = Host config then ''8443'' else ''443''))
         = Inr backendConn"
  shows "handleConnection L u config W clientConn =
           Some \<lparr>dialled = [JoinHostPort (ToLower u (ServerName hello))
                    (if ToLower u (ServerName hello) = Host config then ''8443'' else ''443'')],
                 clientEnd = conn_Close (fst (toClient (fst (toBackend peeked c1 backendConn))
                                             (snd (toBackend peeked c1 backendConn)))),
                 backendEnd = Some (conn_Close (snd (toClient (fst (toBackend peeked c1 backendConn))
                                             (snd (toBackend peeked c1 backendConn)))))\<rparr>"
proof (cases "ToLower u (ServerName hello) = Host config")
  case True
  with assms show ?thesis
    by (simp add: handleConnection_def Let_def split: prod.splits)
next
  case False
  with assms show ?thesis
    by (simp add: handleConnection_def Let_def split: prod.splits)
qed


text \<open>
  C3. When the client's stream holds a ClientHello that the TLS library parses, the
  deadline calls succeed and the dial reaches a backend, then \<open>handleConnection\<close>
  returns; the bytes that sniffing consumed (the tee buffer) followed by the bytes
  still to be read from the client are the client's whole stream; what has been
  written to the backend is a prefix of the buffer followed by those live bytes, so
  no live byte is written before the whole buffer; and when the backend accepts every
  write it is all of it, byte for byte.
\<close>

theorem backend_receives_client_stream:
  assumes "setDeadline W = None" and "clearDeadline W = None"
    and "parsedHello L (incoming clientConn) = Some hello"
    and "DialTimeout W (JoinHostPort (ToLower u (ServerName hello))
           (if ToLower u (ServerName hello) = Host config then ''8443'' else ''443''))
         = Inr backendConn"
  shows "\<exists>peeked c1 out b written.
           peekClientHello L clientConn = Some (Inr (hello, peeked), c1) \<and>
           peeked @ incoming c1 = incoming clientConn \<and>
           handleConnection L u config W clientConn = Some out \<and>
           backendEnd out = Some b \<and>
           outgoing b = outgoing backendConn @ written \<and>
           prefix written (peeked @ incoming c1) \<and>
           (wcap backendConn = None \<and> \<not> wclosed backendConn \<and> \<not> isClosed backendConn \<longrightarrow>
              written = peeked @ incoming c1)"
proof -
  from peekClientHello_parsed [OF assms(3)] obtain peeked c1 where
    p: "peekClientHello L clientConn = Some (Inr (hello, peeked), c1)"
       "peeked @ incoming c1 = incoming clientConn"
    by blast
  let ?tb = "toBackend peeked c1 backendConn"
  let ?tc = "toClient (fst ?tb) (snd ?tb)"
  let ?out = "\<lparr>dialled = [JoinHostPort (ToLower u (ServerName hello))
                    (if ToLower u (ServerName hello) = Host config then ''8443'' else ''443'')],
               clientEnd = conn_Close (fst ?tc), backendEnd = Some (conn_Close (snd ?tc))\<rparr>"
  from handleConnection_relayed [OF assms(1) assms(2) p(1) assms(4)]
  have h: "handleConnection L u config W clientConn = Some ?out" .
  have e: "outgoing (conn_Close (snd ?tc)) = outgoing (snd ?tb)"
    by (simp only: conn_Close_fields toClient_keeps_backend_writer)
  from toBackend_prefix [of peeked c1 backendConn] obtain written where
    w: "outgoing (snd ?tb) = outgoing backendConn @ written"
       "prefix written (peeked @ incoming c1)"
       "wcap backendConn = None \<and> \<not> wclosed backendConn \<and> \<not> isClosed backendConn \<longrightarrow>
          written = peeked @ incoming c1"
    by blast
  from e w(1) have o: "outgoing (conn_Close (snd ?tc)) = outgoing backendConn @ written" by simp
  have b: "backendEnd ?out = Some (conn_Close (snd ?tc))" by simp
  from p h b o w(2) w(3) show ?thesis
    by (intro exI [of _ peeked] exI [of _ c1] exI [of _ ?out] exI [of _ "conn_Close (snd ?tc)"]
          exI [of _ written] conjI)
qed
lemma reachable_fields:
  "setDeadline (reachable reply) = None" "clearDeadline (reachable reply) = None"
  "DialTimeout (reachable reply) addr = Inr (freshConn reply)"
  by (simp_all add: reachable_def)

lemma parsed_other:
  "parsedHello plainTLS (incoming sniClientOther) = Some \<lparr>ServerName = ''other.org''\<rparr>"
  by code_simp


lemma parsed_silent: "parsedHello plainTLS (incoming sniClientSilent) = None"
  by code_simp

text \<open>The client that names \<^verbatim>\<open>other.org\<close>: its backend receives the ClientHello record
  and the three bytes after it.\<close>

theorem backend_receives_client_stream_witness:
  "setDeadline (reachable [9, 9]) = None \<and> clearDeadline (reachable [9, 9]) = None \<and>
   parsedHello plainTLS (incoming sniClientOther) = Some \<lparr>ServerName = ''other.org''\<rparr> \<and>
   (\<exists>peeked c1 out b written.
      peekClientHello plainTLS sniClientOther
        = Some (Inr (\<lparr>ServerName = ''other.org''\<rparr>, peeked), c1) \<and>
      peeked @ incoming c1 = incoming sniClientOther \<and>
      handleConnection plainTLS (\<lambda>s. s) exampleConfig (reachable [9, 9]) sniClientOther
        = Some out \<and>
      backendEnd out = Some b \<and>
      outgoing b = outgoing (freshConn [9, 9]) @ written \<and>
      prefix written (peeked @ incoming c1) \<and>
      (wcap (freshConn [9, 9]) = None \<and> \<not> wclosed (freshConn [9, 9]) \<and>
       \<not> isClosed (freshConn [9, 9]) \<longrightarrow> written = peeked @ incoming c1)) \<and>
   incoming sniClientOther = clientHelloFor ''other.org'' @ [1, 2, 3] \<and>
   map_option (map_option outgoing \<circ> backendEnd)
     (handleConnection plainTLS (\<lambda>s. s) exampleConfig (reachable [9, 9]) sniClientOther)
     = Some (Some (clientHelloFor ''other.org'' @ [1, 2, 3]))"
proof -
  have i: "incoming sniClientOther = clientHelloFor ''other.org'' @ [1, 2, 3]"
    by (simp add: sniClientOther_def freshConn_def)
  have v: "map_option (map_option outgoing \<circ> backendEnd)
     (handleConnection plainTLS (\<lambda>s. s) exampleConfig (reachable [9, 9]) sniClientOther)
     = Some (Some (clientHelloFor ''other.org'' @ [1, 2, 3]))"
    by code_simp
  note t = backend_receives_client_stream [of "reachable [9, 9]" plainTLS sniClientOther
         "\<lparr>ServerName = ''other.org''\<rparr>" "\<lambda>s. s" exampleConfig "freshConn [9, 9]",
         OF reachable_fields(1) reachable_fields(2) parsed_other reachable_fields(3)]
  from reachable_fields(1) [of "[9, 9]"] reachable_fields(2) [of "[9, 9]"] parsed_other t i v
  show ?thesis by (intro conjI)
qed

section \<open>The SNI router: the address dialled\<close>







section \<open>The sniffer on a stream without a ClientHello\<close>

text \<open>
  C5. A client that connects and sends nothing: the handshake fails before the hook
  has run, the counter of the wait group is still one, and \<^verbatim>\<open>wg.Wait()\<close> is reached
  before the test of \<open>hello\<close>. \<open>readClientHello\<close> does not return, and neither do
  \<open>peekClientHello\<close> and \<open>handleConnection\<close>.
\<close>

theorem silent_client_blocks_sniffer:
  "parsedHello plainTLS (incoming sniClientSilent) = None \<and>
   readClientHello plainTLS \<lparr>teeSource = sniClientSilent, teeBuffer = []\<rparr> = None \<and>
   peekClientHello plainTLS sniClientSilent = None \<and>
   handleConnection plainTLS (\<lambda>s. s) exampleConfig (reachable []) sniClientSilent = None"
proof -
  have r: "readClientHello plainTLS \<lparr>teeSource = sniClientSilent, teeBuffer = []\<rparr> = None"
    by (rule readClientHello_not_parsed) (simp add: parsed_silent)
  have p: "peekClientHello plainTLS sniClientSilent = None"
    by (rule peekClientHello_not_parsed [OF parsed_silent])
  then have h: "handleConnection plainTLS (\<lambda>s. s) exampleConfig (reachable []) sniClientSilent = None"
    by (simp add: handleConnection_def reachable_fields)
  from parsed_silent r p h show ?thesis by simp
qed

end
